theory Spec2Isabelle
  imports Main
begin

section \<open>Values\<close>

text \<open>
  The payload of a request (\<^verbatim>\<open>data: any\<close>), the parsed response
  (\<^verbatim>\<open>responseStruct\<close>) and everything nested in them are JSON values. The
  JavaScript \<^verbatim>\<open>null\<close> is \<open>JNull\<close>. Numbers are the integer ones; strings are
  their UTF-8 bytes. An object keeps its properties in insertion order; a parsed
  object has each key once.
\<close>

datatype json =
    JNull
  | JBool bool
  | JNum int
  | JStr string
  | JArr "json list"
  | JObj "(string \<times> json) list"

text \<open>A JavaScript value that may also be \<^verbatim>\<open>undefined\<close>.\<close>

datatype jsval = Undefined | Value json

text \<open>JavaScript truthiness (\<^verbatim>\<open>if(x)\<close>, \<^verbatim>\<open>!x\<close>, \<^verbatim>\<open>a && b\<close>).\<close>

fun truthy :: "json \<Rightarrow> bool" where
  "truthy JNull = False"
| "truthy (JBool b) = b"
| "truthy (JNum n) = (n \<noteq> 0)"
| "truthy (JStr s) = (s \<noteq> [])"
| "truthy (JArr xs) = True"
| "truthy (JObj kvs) = True"

text \<open>Truthiness of a \<^verbatim>\<open>string | null\<close>: neither null nor empty.\<close>

fun truthy_string :: "string option \<Rightarrow> bool" where
  "truthy_string None = False"
| "truthy_string (Some s) = (s \<noteq> [])"

subsection \<open>Platform functions used by the dispatcher\<close>

text \<open>Decimal rendering of a number inside a template literal.\<close>

fun show_nat :: "nat \<Rightarrow> string" where
  "show_nat n =
     (if n < 10 then [''0123456789'' ! n]
      else show_nat (n div 10) @ [''0123456789'' ! (n mod 10)])"

declare show_nat.simps [simp del]

definition show_int :: "int \<Rightarrow> string" where
  "show_int i = (if i < 0 then CHR ''-'' # show_nat (nat (- i)) else show_nat (nat i))"

definition hex_digit :: "nat \<Rightarrow> char" where
  "hex_digit n = ''0123456789ABCDEF'' ! (n mod 16)"

definition hex_digit_lower :: "nat \<Rightarrow> char" where
  "hex_digit_lower n = ''0123456789abcdef'' ! (n mod 16)"

text \<open>
  \<^verbatim>\<open>JSON.stringify\<close> on a string: the quotation mark, the backslash and the
  control characters are escaped, every other byte is kept.
\<close>

definition escape_char :: "char \<Rightarrow> string" where
  \<open>escape_char c =
     (if c = CHR 0x22 then [CHR 0x5C, CHR 0x22]
      else if c = CHR 0x5C then [CHR 0x5C, CHR 0x5C]
      else if c = CHR 0x08 then [CHR 0x5C, CHR ''b'']
      else if c = CHR 0x0C then [CHR 0x5C, CHR ''f'']
      else if c = CHR 0x0A then [CHR 0x5C, CHR ''n'']
      else if c = CHR 0x0D then [CHR 0x5C, CHR ''r'']
      else if c = CHR 0x09 then [CHR 0x5C, CHR ''t'']
      else if (of_char c :: nat) < 32
        then [CHR 0x5C, CHR ''u'', CHR ''0'', CHR ''0'',
              hex_digit_lower (of_char c div 16), hex_digit_lower (of_char c)]
      else [c])\<close>

definition quote :: "string \<Rightarrow> string" where
  \<open>quote s = CHR 0x22 # concat (map escape_char s) @ [CHR 0x22]\<close>

fun join :: "string \<Rightarrow> string list \<Rightarrow> string" where
  "join sep [] = []"
| "join sep [x] = x"
| "join sep (x # y # ys) = x @ sep @ join sep (y # ys)"

text \<open>\<^verbatim>\<open>JSON.stringify\<close> on a JSON value.\<close>

fun JSON_stringify :: "json \<Rightarrow> string"
  and stringify_items :: "json list \<Rightarrow> string list"
  and stringify_members :: "(string \<times> json) list \<Rightarrow> string list" where
  "JSON_stringify JNull = ''null''"
| "JSON_stringify (JBool b) = (if b then ''true'' else ''false'')"
| "JSON_stringify (JNum n) = show_int n"
| "JSON_stringify (JStr s) = quote s"
| "JSON_stringify (JArr xs) = ''['' @ join '','' (stringify_items xs) @ '']''"
| "JSON_stringify (JObj kvs) = ''{'' @ join '','' (stringify_members kvs) @ ''}''"
| "stringify_items [] = []"
| "stringify_items (x # xs) = JSON_stringify x # stringify_items xs"
| "stringify_members [] = []"
| "stringify_members ((k, v) # kvs) =
     (quote k @ '':'' @ JSON_stringify v) # stringify_members kvs"

text \<open>
  \<^verbatim>\<open>encodeURIComponent\<close>: letters, digits and \<^verbatim>\<open>- _ . ! ~ * ' ( )\<close> are kept,
  every other byte of the UTF-8 text becomes \<^verbatim>\<open>%XX\<close>.
\<close>

definition unreserved :: "char \<Rightarrow> bool" where
  "unreserved c =
     (let n = (of_char c :: nat) in
        (65 \<le> n \<and> n \<le> 90) \<or> (97 \<le> n \<and> n \<le> 122) \<or> (48 \<le> n \<and> n \<le> 57)
        \<or> c \<in> set [CHR ''-'', CHR ''_'', CHR ''.'', CHR ''!'', CHR ''~'', CHR ''*'',
                     CHR 0x27, CHR ''('', CHR '')''])"

definition encodeURIComponent :: "string \<Rightarrow> string" where
  "encodeURIComponent s =
     concat (map (\<lambda>c. if unreserved c then [c]
                      else [CHR ''%'', hex_digit (of_char c div 16), hex_digit (of_char c)]) s)"

section \<open>Types of the dispatcher\<close>

datatype actionOptions = Create | Delete | Read | Update

record onRequestingStruct =
  action :: actionOptions
  data :: json
  url :: string

record onRequestedStruct = onRequestingStruct +
  res :: "json option"

text \<open>Actions to methods.\<close>

fun METHODS :: "actionOptions \<Rightarrow> string" where
  "METHODS Create = ''POST''"
| "METHODS Delete = ''DELETE''"
| "METHODS Read = ''GET''"
| "METHODS Update = ''PUT''"

text \<open>
  A callback is a JavaScript function; it is named by a number. A slot of the class
  holds \<open>Some f\<close> for the function \<open>f\<close> and \<open>None\<close> for \<^verbatim>\<open>null\<close> or
  \<^verbatim>\<open>undefined\<close>, the two values of the declared slot types that are not
  functions (both are falsy, and the class never tells them apart).
\<close>

type_synonym callback = nat

record Body =
  u_domain :: string
  error :: "callback option"
  errorCode :: "callback option"
  noSession :: "callback option"
  requested :: "callback option"
  requesting :: "callback option"
  token :: "string option"
  warning :: "callback option"

text \<open>The instance the module exports, as constructed.\<close>

definition body :: Body where
  "body = \<lparr>u_domain = ''localhost'', error = None, errorCode = None, noSession = None,
           requested = None, requesting = None, token = None, warning = None\<rparr>"

text \<open>
  One invocation of a callback: which slot's signature it is called with, and the
  arguments. \<open>OnNoSession\<close> has none.
\<close>

datatype call =
    OnError string onRequestedStruct
  | OnErrorCode json onRequestedStruct
  | OnNoSession
  | OnRequested onRequestedStruct
  | OnRequesting onRequestingStruct
  | OnWarning json onRequestedStruct

text \<open>
  What the callbacks do when called is not code of the class: it is a parameter. Given
  the function, the invocation and the instance as it is at that moment, it yields the
  returned value and the instance as the function leaves it (a callback may call
  \<^verbatim>\<open>body.session(null)\<close>, register callbacks, and so on). Callbacks return;
  a callback that throws is outside the model.
\<close>

type_synonym behaviour = "callback \<Rightarrow> call \<Rightarrow> Body \<Rightarrow> jsval \<times> Body"

text \<open>The second argument of \<^verbatim>\<open>fetch\<close>.\<close>

record fetchInit =
  http_method :: string
  headers :: "(string \<times> string) list"
  body_text :: "string option"

text \<open>
  How the transport settles: \<^verbatim>\<open>fetch\<close> rejects with a reason (printed as
  \<^verbatim>\<open>${reason}\<close> prints it), or fulfils with a response, of which the
  dispatcher reads the status, the \<^verbatim>\<open>Content-Type\<close> header (\<open>None\<close> when
  \<^verbatim>\<open>headers.get\<close> gives \<^verbatim>\<open>null\<close>) and \<^verbatim>\<open>response.json()\<close>:
  \<open>Inr v\<close> when the body parses to \<open>v\<close>, \<open>Inl reason\<close> when that promise rejects.
\<close>

datatype fetched =
    Failed string
  | Response nat "string option" "string + json"

text \<open>What can be observed of one call, in order.\<close>

datatype event =
    Call callback call
  | Fetch string fetchInit
  | Json

text \<open>The promise \<^verbatim>\<open>request\<close> returns.\<close>

datatype settlement = Pending | Resolved jsval | Rejected jsval

record outcome =
  events :: "event list"
  settled :: settlement
  uncaught :: "string option"

text \<open>
  The variables the closures of one call share: \<^verbatim>\<open>_\<close> (the instance), the
  \<^verbatim>\<open>res\<close> variable, the state of the returned promise, and the trace so far.
\<close>

record flight =
  self :: Body
  res_var :: "json option"
  promise :: settlement
  trace :: "event list"

section \<open>The dispatcher\<close>

text \<open>Calling a function: it runs on the instance as it is now, and the call is traced.\<close>

definition invoke :: "behaviour \<Rightarrow> callback \<Rightarrow> call \<Rightarrow> flight \<Rightarrow> jsval \<times> flight" where
  "invoke w f c fl =
     (fst (w f c (self fl)),
      fl\<lparr>self := snd (w f c (self fl)), trace := trace fl @ [Call f c]\<rparr>)"

text \<open>
  \<^verbatim>\<open>handleError\<close>: the error callback if one is set, else
  \<^verbatim>\<open>throw new Error(message)\<close>. A thrown or rejected value is kept as the text
  \<^verbatim>\<open>${reason}\<close> gives for it, which for an \<^verbatim>\<open>Error\<close> is its message after
  \<^verbatim>\<open>Error: \<close>. \<open>Inl\<close> is a throw.
\<close>

definition handleError ::
  "behaviour \<Rightarrow> onRequestedStruct \<Rightarrow> string \<Rightarrow> flight \<Rightarrow> (string + unit) \<times> flight" where
  "handleError w info message fl =
     (case error (self fl) of
        Some f \<Rightarrow> (Inr (), snd (invoke w f (OnError message info) fl))
      | None \<Rightarrow> (Inl (''Error: '' @ message), fl))"

definition JSON_CONTENT_TYPE :: string where
  "JSON_CONTENT_TYPE = ''application/json; charset=utf-8''"

text \<open>\<^verbatim>\<open>response.ok\<close>: the status is 2xx.\<close>

definition response_ok :: "nat \<Rightarrow> bool" where
  "response_ok status = (200 \<le> status \<and> status \<le> 299)"

text \<open>A \<^verbatim>\<open>string | null\<close> inside a template literal.\<close>

fun show_nullable :: "string option \<Rightarrow> string" where
  "show_nullable None = ''null''"
| "show_nullable (Some s) = s"

text \<open>
  The first \<^verbatim>\<open>then\<close>: from the response to the value handed on (\<open>Inr\<close>), or a
  throw or a rejection of \<^verbatim>\<open>response.json()\<close> (\<open>Inl\<close>).
\<close>

definition then_response ::
  "behaviour \<Rightarrow> actionOptions \<Rightarrow> string \<Rightarrow> onRequestedStruct \<Rightarrow>
   nat \<Rightarrow> string option \<Rightarrow> string + json \<Rightarrow> flight \<Rightarrow> (string + jsval) \<times> flight" where
  "then_response w act u info status ct parsed fl =
     (if response_ok status then
        (case (if \<not> truthy_string ct \<or> ct \<noteq> Some JSON_CONTENT_TYPE
               then handleError w info
                      (METHODS act @ '' '' @ u @ '' returned invalid Content-Type: ''
                         @ show_nullable ct) fl
               else (Inr (), fl)) of
           (Inl e, fl1) \<Rightarrow> (Inl e, fl1)
         | (Inr _, fl1) \<Rightarrow>
             (case parsed of Inl e \<Rightarrow> Inl e | Inr v \<Rightarrow> Inr (Value v),
              fl1\<lparr>trace := trace fl1 @ [Json]\<rparr>))
      else if status = 401 then
        (case noSession (self fl) of
           Some f \<Rightarrow> (Inr Undefined, snd (invoke w f OnNoSession fl))
         | None \<Rightarrow>
             (Inl (''Error: '' @ METHODS act @ '' '' @ u @ '' return 401 NOT AUTHORIZED''),
              fl))
      else
        (case handleError w info
                (METHODS act @ '' '' @ u @ '' returned invalid status: '' @ show_nat status)
                fl of
           (Inl e, fl1) \<Rightarrow> (Inl e, fl1)
         | (Inr _, fl1) \<Rightarrow> (Inr Undefined, fl1)))"

text \<open>
  \<^verbatim>\<open>result.key\<close>, and \<^verbatim>\<open>'key' in result\<close> for the keys the dispatcher asks
  for (\<^verbatim>\<open>error\<close>, \<^verbatim>\<open>warning\<close>, \<^verbatim>\<open>data\<close>): an object has the key or not,
  an array has none of them, and on any other value \<^verbatim>\<open>in\<close> throws a
  \<^verbatim>\<open>TypeError\<close>.
\<close>

fun property :: "json \<Rightarrow> string \<Rightarrow> jsval" where
  "property (JObj kvs) k = (case map_of kvs k of Some v \<Rightarrow> Value v | None \<Rightarrow> Undefined)"
| "property v k = Undefined"

fun show_primitive :: "json \<Rightarrow> string" where
  "show_primitive (JStr s) = s"
| "show_primitive v = JSON_stringify v"

fun has_key :: "string \<Rightarrow> json \<Rightarrow> string + bool" where
  "has_key k (JObj kvs) = Inr (k \<in> set (map fst kvs))"
| "has_key k (JArr xs) = Inr False"
| "has_key k v =
     Inl (''TypeError: Cannot use 'in' operator to search for ''
            @ [CHR 0x27] @ k @ [CHR 0x27] @ '' in '' @ show_primitive v)"

text \<open>\<^verbatim>\<open>resolve\<close> and \<^verbatim>\<open>reject\<close>: a settled promise stays as it is.\<close>

definition resolve :: "jsval \<Rightarrow> flight \<Rightarrow> flight" where
  "resolve v fl = (if promise fl = Pending then fl\<lparr>promise := Resolved v\<rparr> else fl)"

definition reject :: "jsval \<Rightarrow> flight \<Rightarrow> flight" where
  "reject v fl = (if promise fl = Pending then fl\<lparr>promise := Rejected v\<rparr> else fl)"

text \<open>
  The three blocks of the second \<^verbatim>\<open>then\<close>. \<open>info\<close> is
  \<^verbatim>\<open>{ action, data, res, url }\<close> with \<^verbatim>\<open>res\<close> set.

  The error block, \<^verbatim>\<open>if('error' in result && result.error) { ... }\<close>: the
  result \<open>Inr True\<close> says that it has returned \<^verbatim>\<open>reject(result.error)\<close>,
  which it does when no errorCode callback is set, or when the one that is set returns
  \<^verbatim>\<open>false\<close>.
\<close>

definition error_block ::
  "behaviour \<Rightarrow> onRequestedStruct \<Rightarrow> json \<Rightarrow> flight \<Rightarrow> (string + bool) \<times> flight" where
  "error_block w info v fl =
     (case has_key ''error'' v of
        Inl e \<Rightarrow> (Inl e, fl)
      | Inr has_error \<Rightarrow>
          (case property v ''error'' of
             Undefined \<Rightarrow> (Inr False, fl)
           | Value e \<Rightarrow>
               if has_error \<and> truthy e then
                 (case errorCode (self fl) of
                    None \<Rightarrow> (Inr True, reject (Value e) fl)
                  | Some f \<Rightarrow>
                      if fst (invoke w f (OnErrorCode e info) fl) = Value (JBool False)
                      then (Inr True,
                            reject (Value e) (snd (invoke w f (OnErrorCode e info) fl)))
                      else (Inr False, snd (invoke w f (OnErrorCode e info) fl)))
               else (Inr False, fl)))"

text \<open>
  The warning block,
  \<^verbatim>\<open>if('warning' in result && result.warning && _.warning) { ... }\<close>.
\<close>

definition warning_block ::
  "behaviour \<Rightarrow> onRequestedStruct \<Rightarrow> json \<Rightarrow> flight \<Rightarrow> (string + unit) \<times> flight" where
  "warning_block w info v fl =
     (case has_key ''warning'' v of
        Inl e \<Rightarrow> (Inl e, fl)
      | Inr has_warning \<Rightarrow>
          (case property v ''warning'' of
             Undefined \<Rightarrow> (Inr (), fl)
           | Value wv \<Rightarrow>
               if has_warning \<and> truthy wv then
                 (case warning (self fl) of
                    Some f \<Rightarrow> (Inr (), snd (invoke w f (OnWarning wv info) fl))
                  | None \<Rightarrow> (Inr (), fl))
               else (Inr (), fl)))"

text \<open>The data block, \<^verbatim>\<open>if('data' in result) { return resolve(result.data); }\<close>.\<close>

definition data_block :: "json \<Rightarrow> flight \<Rightarrow> (string + unit) \<times> flight" where
  "data_block v fl =
     (case has_key ''data'' v of
        Inl e \<Rightarrow> (Inl e, fl)
      | Inr has_data \<Rightarrow>
          if has_data then (Inr (), resolve (property v ''data'') fl) else (Inr (), fl))"

text \<open>
  The second \<^verbatim>\<open>then\<close>: classification of the result. Nothing is done for a
  falsy result; otherwise \<^verbatim>\<open>res\<close> is set and the blocks run in order.
\<close>

definition then_result ::
  "behaviour \<Rightarrow> onRequestedStruct \<Rightarrow> jsval \<Rightarrow> flight \<Rightarrow> (string + unit) \<times> flight" where
  "then_result w info0 result fl =
     (case result of
        Undefined \<Rightarrow> (Inr (), fl)
      | Value v \<Rightarrow>
          if \<not> truthy v then (Inr (), fl)
          else
            let fl1 = fl\<lparr>res_var := Some v\<rparr>;
                info = info0\<lparr>res := Some v\<rparr>
            in
            (case error_block w info v fl1 of
               (Inl e, fl2) \<Rightarrow> (Inl e, fl2)
             | (Inr True, fl2) \<Rightarrow> (Inr (), fl2)
             | (Inr False, fl2) \<Rightarrow>
                 (case warning_block w info v fl2 of
                    (Inl e, fl3) \<Rightarrow> (Inl e, fl3)
                  | (Inr _, fl3) \<Rightarrow> data_block v fl3)))"

text \<open>The \<^verbatim>\<open>catch\<close>: whatever was thrown or rejected before it goes to handleError.\<close>

definition catch_reason ::
  "behaviour \<Rightarrow> actionOptions \<Rightarrow> string \<Rightarrow> onRequestedStruct \<Rightarrow> string \<Rightarrow> flight
   \<Rightarrow> (string + unit) \<times> flight" where
  \<open>catch_reason w act u info reason fl =
     handleError w info
       (METHODS act @ '' '' @ u @ '' failed because of "'' @ reason @ ''"'') fl\<close>

text \<open>The \<^verbatim>\<open>finally\<close>: the requested callback, with \<^verbatim>\<open>res\<close> as it now is.\<close>

definition finally_requested :: "behaviour \<Rightarrow> onRequestedStruct \<Rightarrow> flight \<Rightarrow> flight" where
  "finally_requested w info0 fl =
     (case requested (self fl) of
        Some f \<Rightarrow> snd (invoke w f (OnRequested (info0\<lparr>res := res_var fl\<rparr>)) fl)
      | None \<Rightarrow> fl)"

text \<open>
  The chain \<^verbatim>\<open>fetch(url, fetchInit).then(...).then(...).catch(...)\<close> once
  \<^verbatim>\<open>fetch\<close> has settled: a \<^verbatim>\<open>then\<close> is skipped when what comes
  before it has thrown or rejected, and the \<^verbatim>\<open>catch\<close> runs only then. \<open>Inl\<close>
  in the result is the error the \<^verbatim>\<open>catch\<close> itself throws.
\<close>

definition caught_chain ::
  "behaviour \<Rightarrow> actionOptions \<Rightarrow> string \<Rightarrow> onRequestedStruct \<Rightarrow> fetched \<Rightarrow> flight
   \<Rightarrow> (string + unit) \<times> flight" where
  "caught_chain w act u info settles fl =
     (let (r1, fl1) = (case settles of
                         Failed reason \<Rightarrow> (Inl reason, fl)
                       | Response status ct parsed \<Rightarrow>
                           then_response w act u info status ct parsed fl);
          (r2, fl2) = (case r1 of
                         Inl e \<Rightarrow> (Inl e, fl1)
                       | Inr result \<Rightarrow> then_result w info result fl1)
      in (case r2 of
            Inl e \<Rightarrow> catch_reason w act u info e fl2
          | Inr _ \<Rightarrow> (Inr (), fl2)))"

text \<open>
  The whole chain, with its \<^verbatim>\<open>finally\<close>, which always runs and passes on how
  the chain before it ended.
\<close>

definition promise_chain ::
  "behaviour \<Rightarrow> actionOptions \<Rightarrow> string \<Rightarrow> onRequestedStruct \<Rightarrow> fetched \<Rightarrow> flight
   \<Rightarrow> (string + unit) \<times> flight" where
  "promise_chain w act u info settles fl =
     (let (r, fl1) = caught_chain w act u info settles fl
      in (r, finally_requested w info fl1))"

text \<open>
  \<^verbatim>\<open>request\<close>. The last argument is how the transport settles this call. The
  result is what was observed, and the instance after the call. \<open>uncaught\<close> is the
  error the promise chain ends with, if any; \<open>settled\<close> is the promise returned to
  the caller.
\<close>

definition request ::
  "behaviour \<Rightarrow> Body \<Rightarrow> actionOptions \<Rightarrow> string \<Rightarrow> string \<Rightarrow> json \<Rightarrow> fetched
   \<Rightarrow> outcome \<times> Body" where
  "request w this act service noun dat settles =
     (let url0 = ''https://'' @ u_domain this @ ''/'' @ service @ ''/'' @ noun;
          u = (if dat \<noteq> JNull \<and> act = Read
               then url0 @ ''?d='' @ encodeURIComponent (JSON_stringify dat)
               else url0);
          json = (if dat \<noteq> JNull \<and> act \<noteq> Read then Some (JSON_stringify dat) else None);
          info = \<lparr>action = act, data = dat, url = u, res = None\<rparr>;
          init = \<lparr>http_method = METHODS act,
                  headers = (''Content-Type'', JSON_CONTENT_TYPE)
                    # (case token this of
                         Some t \<Rightarrow> if truthy_string (token this)
                                   then [(''Authorization'', t)] else []
                       | None \<Rightarrow> []),
                  body_text = (if truthy_string json then json else None)\<rparr>;
          fl0 = \<lparr>self = this, res_var = None, promise = Pending, trace = []\<rparr>;
          fl1 = (case requesting (self fl0) of
                   Some f \<Rightarrow>
                     snd (invoke w f
                            (OnRequesting \<lparr>action = act, data = dat, url = u\<rparr>) fl0)
                 | None \<Rightarrow> fl0);
          fl2 = fl1\<lparr>trace := trace fl1 @ [Fetch u init]\<rparr>;
          (r, fl3) = promise_chain w act u info settles fl2
      in (\<lparr>events = trace fl3, settled = promise fl3,
           uncaught = (case r of Inl e \<Rightarrow> Some e | Inr _ \<Rightarrow> None)\<rparr>,
          self fl3))"

text \<open>The four shorthands. Their \<^verbatim>\<open>data\<close> defaults to \<^verbatim>\<open>null\<close>.\<close>

definition create ::
  "behaviour \<Rightarrow> Body \<Rightarrow> string \<Rightarrow> string \<Rightarrow> json \<Rightarrow> fetched \<Rightarrow> outcome \<times> Body" where
  "create w this service noun dat settles = request w this Create service noun dat settles"

definition delete ::
  "behaviour \<Rightarrow> Body \<Rightarrow> string \<Rightarrow> string \<Rightarrow> json \<Rightarrow> fetched \<Rightarrow> outcome \<times> Body" where
  "delete w this service noun dat settles = request w this Delete service noun dat settles"

definition read ::
  "behaviour \<Rightarrow> Body \<Rightarrow> string \<Rightarrow> string \<Rightarrow> json \<Rightarrow> fetched \<Rightarrow> outcome \<times> Body" where
  "read w this service noun dat settles = request w this Read service noun dat settles"

definition update ::
  "behaviour \<Rightarrow> Body \<Rightarrow> string \<Rightarrow> string \<Rightarrow> json \<Rightarrow> fetched \<Rightarrow> outcome \<times> Body" where
  "update w this service noun dat settles = request w this Update service noun dat settles"

section \<open>Domain, session and registration\<close>

text \<open>
  \<^verbatim>\<open>domain\<close> and \<^verbatim>\<open>session\<close> are getters when the argument is
  \<^verbatim>\<open>undefined\<close> (\<open>None\<close>) and setters otherwise; a setter returns nothing
  (\<open>None\<close>). The argument of \<^verbatim>\<open>session\<close> is a \<^verbatim>\<open>string | null\<close>.
\<close>

definition domain :: "string option \<Rightarrow> Body \<Rightarrow> string option \<times> Body" where
  "domain d this =
     (case d of
        None \<Rightarrow> (Some (u_domain this), this)
      | Some v \<Rightarrow> (None, this\<lparr>u_domain := v\<rparr>))"

definition session :: "string option option \<Rightarrow> Body \<Rightarrow> string option option \<times> Body" where
  "session t this =
     (case t of
        None \<Rightarrow> (Some (token this), this)
      | Some v \<Rightarrow> (None, this\<lparr>token := v\<rparr>))"

datatype exception = Error string

text \<open>
  The six single registrations. The argument is \<open>Some f\<close> for a function and \<open>None\<close>
  for a value whose \<^verbatim>\<open>typeof\<close> is not \<^verbatim>\<open>'function'\<close>.
\<close>

definition onError :: "callback option \<Rightarrow> Body \<Rightarrow> exception + Body" where
  "onError cb this =
     (case cb of
        None \<Rightarrow> Inl (Error ''onError() called with an invalid callback'')
      | Some f \<Rightarrow> Inr (this\<lparr>error := Some f\<rparr>))"

definition onErrorCode :: "callback option \<Rightarrow> Body \<Rightarrow> exception + Body" where
  "onErrorCode cb this =
     (case cb of
        None \<Rightarrow> Inl (Error ''onErrorCode() called with an invalid callback'')
      | Some f \<Rightarrow> Inr (this\<lparr>errorCode := Some f\<rparr>))"

definition onNoSession :: "callback option \<Rightarrow> Body \<Rightarrow> exception + Body" where
  "onNoSession cb this =
     (case cb of
        None \<Rightarrow> Inl (Error ''onNoSession() called with an invalid callback'')
      | Some f \<Rightarrow> Inr (this\<lparr>noSession := Some f\<rparr>))"

definition onRequested :: "callback option \<Rightarrow> Body \<Rightarrow> exception + Body" where
  "onRequested cb this =
     (case cb of
        None \<Rightarrow> Inl (Error ''onRequested() called with an invalid callback'')
      | Some f \<Rightarrow> Inr (this\<lparr>requested := Some f\<rparr>))"

definition onRequesting :: "callback option \<Rightarrow> Body \<Rightarrow> exception + Body" where
  "onRequesting cb this =
     (case cb of
        None \<Rightarrow> Inl (Error ''onRequesting() called with an invalid callback'')
      | Some f \<Rightarrow> Inr (this\<lparr>requesting := Some f\<rparr>))"

definition onWarning :: "callback option \<Rightarrow> Body \<Rightarrow> exception + Body" where
  "onWarning cb this =
     (case cb of
        None \<Rightarrow> Inl (Error ''onWarning() called with an invalid callback'')
      | Some f \<Rightarrow> Inr (this\<lparr>warning := Some f\<rparr>))"

text \<open>
  The argument of \<^verbatim>\<open>on\<close>: an object, as the list of its properties. By the type
  \<^verbatim>\<open>onCallbacks\<close> a property's value is a function or \<^verbatim>\<open>undefined\<close>
  (\<open>None\<close>). \<open>get_callback\<close> is \<^verbatim>\<open>callbacks.key\<close>, which is
  \<^verbatim>\<open>undefined\<close> also when the object has no such key.
\<close>

type_synonym onCallbacks = "(string \<times> callback option) list"

definition get_callback :: "onCallbacks \<Rightarrow> string \<Rightarrow> callback option" where
  "get_callback callbacks k = (case map_of callbacks k of Some v \<Rightarrow> v | None \<Rightarrow> None)"

text \<open>The \<^verbatim>\<open>switch\<close> in the loop of \<^verbatim>\<open>on\<close>.\<close>

definition on_event :: "onCallbacks \<Rightarrow> string \<Rightarrow> Body \<Rightarrow> Body" where
  "on_event callbacks event this =
     (if event = ''error'' then this\<lparr>error := get_callback callbacks ''error''\<rparr>
      else if event = ''errorCode''
        then this\<lparr>errorCode := get_callback callbacks ''errorCode''\<rparr>
      else if event = ''noSession''
        then this\<lparr>noSession := get_callback callbacks ''noSession''\<rparr>
      else if event = ''requested''
        then this\<lparr>requested := get_callback callbacks ''requested''\<rparr>
      else if event = ''requesting''
        then this\<lparr>requesting := get_callback callbacks ''requesting''\<rparr>
      else if event = ''warning'' then this\<lparr>warning := get_callback callbacks ''warning''\<rparr>
      else this)"

text \<open>\<^verbatim>\<open>on\<close>: the loop over \<^verbatim>\<open>Object.keys(callbacks)\<close>.\<close>

definition on :: "onCallbacks \<Rightarrow> Body \<Rightarrow> Body" where
  "on callbacks this = fold (on_event callbacks) (map fst callbacks) this"

section \<open>Notions used to state the properties\<close>

text \<open>Callbacks that leave the instance as they found it.\<close>

definition callbacks_pure :: "behaviour \<Rightarrow> bool" where
  "callbacks_pure w \<longleftrightarrow> (\<forall>f c s. snd (w f c s) = s)"

text \<open>Two instances that hold the same callbacks in their six slots.\<close>

definition same_slots :: "Body \<Rightarrow> Body \<Rightarrow> bool" where
  "same_slots s s' \<longleftrightarrow>
     error s = error s' \<and> errorCode s = errorCode s' \<and> noSession s = noSession s'
     \<and> requested s = requested s' \<and> requesting s = requesting s' \<and> warning s = warning s'"

text \<open>
  Callbacks that leave the six slots as they found them: they register nothing while a
  call is in flight. They may well set the token or the domain.
\<close>

definition callbacks_keep_slots :: "behaviour \<Rightarrow> bool" where
  "callbacks_keep_slots w \<longleftrightarrow> (\<forall>f c s. same_slots (snd (w f c s)) s)"

text \<open>The instance after the callbacks of a trace have run on it, in order.\<close>

fun replay_event :: "behaviour \<Rightarrow> event \<Rightarrow> Body \<Rightarrow> Body" where
  "replay_event w (Call f c) s = snd (w f c s)"
| "replay_event w e s = s"

definition replay :: "behaviour \<Rightarrow> event list \<Rightarrow> Body \<Rightarrow> Body" where
  "replay w evs s = fold (replay_event w) evs s"

text \<open>The requests handed to \<^verbatim>\<open>fetch\<close> in a trace.\<close>

fun fetch_of :: "event \<Rightarrow> (string \<times> fetchInit) list" where
  "fetch_of (Fetch u init) = [(u, init)]"
| "fetch_of e = []"

definition fetches :: "event list \<Rightarrow> (string \<times> fetchInit) list" where
  "fetches evs = concat (map fetch_of evs)"

text \<open>The \<^verbatim>\<open>Authorization\<close> header of each request handed to \<^verbatim>\<open>fetch\<close>.\<close>

definition authorization :: "outcome \<Rightarrow> string option list" where
  "authorization out =
     map (\<lambda>(u, init). map_of (headers init) ''Authorization'') (fetches (events out))"

text \<open>The slot a callback is called from, by the name \<^verbatim>\<open>on\<close> knows it under.\<close>

fun kind :: "call \<Rightarrow> string" where
  "kind (OnError m i) = ''error''"
| "kind (OnErrorCode e i) = ''errorCode''"
| "kind OnNoSession = ''noSession''"
| "kind (OnRequested i) = ''requested''"
| "kind (OnRequesting i) = ''requesting''"
| "kind (OnWarning v i) = ''warning''"

definition kinds :: "string list" where
  "kinds = [''error'', ''errorCode'', ''noSession'', ''requested'', ''requesting'', ''warning'']"

definition slot :: "string \<Rightarrow> Body \<Rightarrow> callback option" where
  "slot k this =
     (if k = ''error'' then error this
      else if k = ''errorCode'' then errorCode this
      else if k = ''noSession'' then noSession this
      else if k = ''requested'' then requested this
      else if k = ''requesting'' then requesting this
      else if k = ''warning'' then warning this
      else None)"

fun is_requested_call :: "event \<Rightarrow> bool" where
  "is_requested_call (Call f (OnRequested i)) = True"
| "is_requested_call e = False"

fun is_error_call :: "event \<Rightarrow> bool" where
  "is_error_call (Call f (OnError m i)) = True"
| "is_error_call e = False"

text \<open>What the two \<^verbatim>\<open>then\<close> and the \<^verbatim>\<open>catch\<close> can add to a trace.\<close>

fun inner_event :: "event \<Rightarrow> bool" where
  "inner_event (Call f (OnRequested i)) = False"
| "inner_event (Call f (OnRequesting i)) = False"
| "inner_event (Fetch u init) = False"
| "inner_event e = True"

section \<open>Notions used in the proofs\<close>

text \<open>
  An invariant of a call in flight, started on the instance \<open>s0\<close>: the instance is
  \<open>s0\<close> after the callbacks traced so far.
\<close>

definition tracked :: "behaviour \<Rightarrow> Body \<Rightarrow> flight \<Rightarrow> bool" where
  "tracked w s0 fl \<longleftrightarrow> self fl = replay w (trace fl) s0"

text \<open>
  A property of flights that the chain up to its \<^verbatim>\<open>catch\<close> cannot break: it
  survives a call of the callback that a slot holds, the trace of
  \<^verbatim>\<open>response.json()\<close>, and the updates of \<^verbatim>\<open>res\<close> and of the promise.
\<close>

definition stable :: "behaviour \<Rightarrow> (flight \<Rightarrow> bool) \<Rightarrow> bool" where
  "stable w I \<longleftrightarrow>
     (\<forall>fl f c. I fl \<and> slot (kind c) (self fl) = Some f \<and> inner_event (Call f c)
        \<longrightarrow> I (snd (invoke w f c fl)))
     \<and> (\<forall>fl. I fl \<longrightarrow> I (fl\<lparr>trace := trace fl @ [Json]\<rparr>))
     \<and> (\<forall>fl r. I fl \<longrightarrow> I (fl\<lparr>res_var := r\<rparr>))
     \<and> (\<forall>fl p. I fl \<longrightarrow> I (fl\<lparr>promise := p\<rparr>))"

text \<open>An event is from the slot that the instance \<open>s\<close> holds for it.\<close>

fun from_slot :: "Body \<Rightarrow> event \<Rightarrow> bool" where
  "from_slot s (Call f c) = (slot (kind c) s = Some f)"
| "from_slot s e = True"

text \<open>
  Names for what \<^verbatim>\<open>request\<close> has built when it calls \<^verbatim>\<open>fetch\<close>: the
  final \<^verbatim>\<open>url\<close>, the \<^verbatim>\<open>fetchInit\<close>, the \<^verbatim>\<open>{ action, data, url }\<close>
  of the callbacks, and the flight at that moment.
\<close>

definition sent_url :: "Body \<Rightarrow> actionOptions \<Rightarrow> string \<Rightarrow> string \<Rightarrow> json \<Rightarrow> string" where
  "sent_url this act service noun dat =
     (if dat \<noteq> JNull \<and> act = Read
      then (''https://'' @ u_domain this @ ''/'' @ service @ ''/'' @ noun)
             @ ''?d='' @ encodeURIComponent (JSON_stringify dat)
      else ''https://'' @ u_domain this @ ''/'' @ service @ ''/'' @ noun)"

definition sent_init :: "Body \<Rightarrow> actionOptions \<Rightarrow> json \<Rightarrow> fetchInit" where
  "sent_init this act dat =
     \<lparr>http_method = METHODS act,
      headers = (''Content-Type'', JSON_CONTENT_TYPE)
        # (if truthy_string (token this)
           then [(''Authorization'', show_nullable (token this))] else []),
      body_text = (if dat \<noteq> JNull \<and> act \<noteq> Read then Some (JSON_stringify dat) else None)\<rparr>"

definition sent_info ::
  "Body \<Rightarrow> actionOptions \<Rightarrow> string \<Rightarrow> string \<Rightarrow> json \<Rightarrow> onRequestedStruct" where
  "sent_info this act service noun dat =
     \<lparr>action = act, data = dat, url = sent_url this act service noun dat, res = None\<rparr>"

definition at_fetch ::
  "behaviour \<Rightarrow> Body \<Rightarrow> actionOptions \<Rightarrow> string \<Rightarrow> string \<Rightarrow> json \<Rightarrow> flight" where
  "at_fetch w this act service noun dat =
     (let fl0 = \<lparr>self = this, res_var = None, promise = Pending, trace = []\<rparr>;
          fl1 = (case requesting this of
                   Some f \<Rightarrow>
                     snd (invoke w f
                            (OnRequesting
                               \<lparr>action = act, data = dat,
                                url = sent_url this act service noun dat\<rparr>) fl0)
                 | None \<Rightarrow> fl0)
      in fl1\<lparr>trace := trace fl1
                @ [Fetch (sent_url this act service noun dat) (sent_init this act dat)]\<rparr>)"

text \<open>
  Whether the error block rejects, on the instance \<open>s\<close>: no errorCode callback is set,
  or the one that is set returns \<^verbatim>\<open>false\<close>.
\<close>

definition rejects :: "behaviour \<Rightarrow> Body \<Rightarrow> onRequestedStruct \<Rightarrow> json \<Rightarrow> bool" where
  "rejects w s info e \<longleftrightarrow>
     (case errorCode s of
        None \<Rightarrow> True
      | Some f \<Rightarrow> fst (w f (OnErrorCode e info) s) = Value (JBool False))"

section \<open>Invariants of a call in flight\<close>

lemma trace_invoke: "trace (snd (invoke w f c fl)) = trace fl @ [Call f c]"
  by (simp add: invoke_def)

lemma promise_invoke: "promise (snd (invoke w f c fl)) = promise fl"
  by (simp add: invoke_def)

lemma self_invoke: "self (snd (invoke w f c fl)) = snd (w f c (self fl))"
  by (simp add: invoke_def)

lemma stable_invoke:
  "stable w I \<Longrightarrow> I fl \<Longrightarrow> slot (kind c) (self fl) = Some f \<Longrightarrow> inner_event (Call f c)
   \<Longrightarrow> I (snd (invoke w f c fl))"
  unfolding stable_def by blast

lemma stable_Json: "stable w I \<Longrightarrow> I fl \<Longrightarrow> I (fl\<lparr>trace := trace fl @ [Json]\<rparr>)"
  unfolding stable_def by blast

lemma stable_res_var: "stable w I \<Longrightarrow> I fl \<Longrightarrow> I (fl\<lparr>res_var := r\<rparr>)"
  unfolding stable_def by blast

lemma stable_promise: "stable w I \<Longrightarrow> I fl \<Longrightarrow> I (fl\<lparr>promise := p\<rparr>)"
  unfolding stable_def by blast

lemma stable_resolve: "stable w I \<Longrightarrow> I fl \<Longrightarrow> I (resolve v fl)"
  by (simp add: resolve_def stable_promise)

lemma stable_reject: "stable w I \<Longrightarrow> I fl \<Longrightarrow> I (reject v fl)"
  by (simp add: reject_def stable_promise)

lemma stable_handleError:
  "stable w I \<Longrightarrow> I fl \<Longrightarrow> I (snd (handleError w info m fl))"
  by (simp add: handleError_def stable_invoke slot_def split: option.split)

lemma stable_then_response:
  "stable w I \<Longrightarrow> I fl \<Longrightarrow> I (snd (then_response w act u info status ct parsed fl))"
  unfolding then_response_def
  by (simp add: stable_invoke stable_Json stable_handleError slot_def case_prod_beta
        split: option.split sum.split)

lemma stable_error_block:
  "stable w I \<Longrightarrow> I fl \<Longrightarrow> I (snd (error_block w info v fl))"
  unfolding error_block_def
  by (simp add: stable_invoke stable_reject slot_def split: option.split sum.split jsval.split)

lemma stable_warning_block:
  "stable w I \<Longrightarrow> I fl \<Longrightarrow> I (snd (warning_block w info v fl))"
  unfolding warning_block_def
  by (simp add: stable_invoke slot_def split: option.split sum.split jsval.split)

lemma stable_data_block: "stable w I \<Longrightarrow> I fl \<Longrightarrow> I (snd (data_block v fl))"
  unfolding data_block_def
  by (simp add: stable_resolve split: sum.split)

lemma stable_then_result:
  "stable w I \<Longrightarrow> I fl \<Longrightarrow> I (snd (then_result w info result fl))"
  unfolding then_result_def
  by (simp add: stable_res_var stable_error_block stable_warning_block stable_data_block
        case_prod_beta Let_def split: sum.split jsval.split bool.split)

lemma stable_catch_reason:
  "stable w I \<Longrightarrow> I fl \<Longrightarrow> I (snd (catch_reason w act u info reason fl))"
  by (simp add: catch_reason_def stable_handleError)

lemma stable_caught_chain:
  "stable w I \<Longrightarrow> I fl \<Longrightarrow> I (snd (caught_chain w act u info settles fl))"
  unfolding caught_chain_def Let_def
  by (simp add: case_prod_beta stable_catch_reason stable_then_result stable_then_response
        split: sum.split fetched.split)

text \<open>The invariants that are used.\<close>

lemma replay_snoc: "replay w (evs @ [e]) s = replay_event w e (replay w evs s)"
  by (simp add: replay_def)

lemma replay_pure: "callbacks_pure w \<Longrightarrow> replay w evs s = s"
proof (induction evs rule: rev_induct)
  case Nil
  show ?case by (simp add: replay_def)
next
  case (snoc e evs)
  then show ?case
    by (cases e) (simp_all add: replay_snoc callbacks_pure_def)
qed

lemma stable_tracked: "stable w (tracked w s0)"
  unfolding stable_def
  by (simp add: tracked_def invoke_def replay_snoc)

lemma stable_collect:
  assumes "\<And>e. inner_event e \<Longrightarrow> g e = []"
  shows "stable w (\<lambda>fl. concat (map g (trace fl)) = xs)"
  unfolding stable_def by (simp add: invoke_def assms)

lemma collect_caught_chain:
  assumes "\<And>e. inner_event e \<Longrightarrow> g e = []"
  shows "concat (map g (trace (snd (caught_chain w act u info settles fl))))
           = concat (map g (trace fl))"
  using stable_caught_chain [OF stable_collect [of g w "concat (map g (trace fl))"], of fl] assms
  by simp

lemma stable_extends: "stable w (\<lambda>fl. \<exists>rest. trace fl = xs @ rest)"
  unfolding stable_def by (auto simp add: invoke_def)

lemma same_slots_refl: "same_slots s s"
  by (simp add: same_slots_def)

lemma same_slots_slot: "same_slots s s' \<Longrightarrow> slot k s = slot k s'"
  by (simp add: same_slots_def slot_def)

lemma callbacks_pure_keep_slots: "callbacks_pure w \<Longrightarrow> callbacks_keep_slots w"
  by (simp add: callbacks_pure_def callbacks_keep_slots_def same_slots_def)

lemma stable_same_slots:
  assumes "callbacks_keep_slots w"
  shows "stable w (\<lambda>fl. same_slots (self fl) s0)"
  using assms unfolding stable_def callbacks_keep_slots_def
  by (auto simp add: invoke_def same_slots_def)

lemma stable_from_slot:
  assumes "callbacks_keep_slots w"
  shows "stable w (\<lambda>fl. same_slots (self fl) s \<and> list_all (from_slot s) (trace fl))"
proof -
  have "same_slots (snd (w f c (self fl))) s \<and> slot (kind c) s = Some f"
    if "same_slots (self fl) s" and "slot (kind c) (self fl) = Some f" for fl f c
  proof -
    from assms have "same_slots (snd (w f c (self fl))) (self fl)"
      by (simp add: callbacks_keep_slots_def)
    with that(1) have "same_slots (snd (w f c (self fl))) s"
      by (simp add: same_slots_def)
    moreover from that have "slot (kind c) s = Some f"
      by (simp add: same_slots_slot [of "self fl" s])
    ultimately show ?thesis ..
  qed
  then show ?thesis
    unfolding stable_def by (auto simp add: invoke_def)
qed

section \<open>The call as a whole\<close>

lemma show_nat_nonempty: "show_nat n \<noteq> []"
  by (subst show_nat.simps) simp

lemma JSON_stringify_nonempty: "JSON_stringify v \<noteq> []"
  by (cases v) (simp_all add: show_int_def show_nat_nonempty quote_def)

lemma request_unfold:
  "request w this act service noun dat settles =
     (let c = caught_chain w act (sent_url this act service noun dat)
                (sent_info this act service noun dat) settles
                (at_fetch w this act service noun dat);
          fl = finally_requested w (sent_info this act service noun dat) (snd c)
      in (\<lparr>events = trace fl, settled = promise fl,
           uncaught = (case fst c of Inl e \<Rightarrow> Some e | Inr _ \<Rightarrow> None)\<rparr>,
          self fl))"
proof -
  have init: "(case token this of
                 Some t \<Rightarrow> if truthy_string (token this) then [(''Authorization'', t)] else []
               | None \<Rightarrow> [])
              = (if truthy_string (token this)
                 then [(''Authorization'', show_nullable (token this))] else [])"
    by (cases "token this") simp_all
  show ?thesis
    unfolding request_def promise_chain_def at_fetch_def sent_info_def sent_url_def
      sent_init_def Let_def init
    by (cases "requesting this") (simp_all add: case_prod_beta JSON_stringify_nonempty)
qed

lemma trace_at_fetch:
  "trace (at_fetch w this act service noun dat)
     = (case requesting this of
          Some f \<Rightarrow> [Call f (OnRequesting
                               \<lparr>action = act, data = dat,
                                url = sent_url this act service noun dat\<rparr>)]
        | None \<Rightarrow> [])
       @ [Fetch (sent_url this act service noun dat) (sent_init this act dat)]"
  by (simp add: at_fetch_def Let_def invoke_def split: option.split)

lemma promise_at_fetch: "promise (at_fetch w this act service noun dat) = Pending"
  by (simp add: at_fetch_def Let_def invoke_def split: option.split)

lemma tracked_at_fetch: "tracked w this (at_fetch w this act service noun dat)"
  by (simp add: at_fetch_def Let_def tracked_def invoke_def replay_def split: option.split)

lemma same_slots_at_fetch:
  "callbacks_keep_slots w \<Longrightarrow> same_slots (self (at_fetch w this act service noun dat)) this"
  by (simp add: at_fetch_def Let_def invoke_def callbacks_keep_slots_def same_slots_refl
        split: option.split)

lemma from_slot_at_fetch:
  "list_all (from_slot this) (trace (at_fetch w this act service noun dat))"
  by (simp add: trace_at_fetch slot_def split: option.split)

lemma tracked_caught_chain:
  "tracked w this (snd (caught_chain w act (sent_url this act service noun dat)
                          (sent_info this act service noun dat) settles
                          (at_fetch w this act service noun dat)))"
  by (rule stable_caught_chain [OF stable_tracked tracked_at_fetch])

lemma same_slots_caught_chain:
  "callbacks_keep_slots w \<Longrightarrow>
   same_slots (self (snd (caught_chain w act (sent_url this act service noun dat)
                            (sent_info this act service noun dat) settles
                            (at_fetch w this act service noun dat)))) this"
  by (rule stable_caught_chain [OF stable_same_slots same_slots_at_fetch])

lemma request_events:
  "events (fst (request w this act service noun dat settles))
     = trace (snd (caught_chain w act (sent_url this act service noun dat)
                     (sent_info this act service noun dat) settles
                     (at_fetch w this act service noun dat)))
       @ (case requested
                 (self (snd (caught_chain w act (sent_url this act service noun dat)
                               (sent_info this act service noun dat) settles
                               (at_fetch w this act service noun dat)))) of
            None \<Rightarrow> []
          | Some f \<Rightarrow>
              [Call f (OnRequested
                 ((sent_info this act service noun dat)
                    \<lparr>res := res_var
                       (snd (caught_chain w act (sent_url this act service noun dat)
                          (sent_info this act service noun dat) settles
                          (at_fetch w this act service noun dat)))\<rparr>))])"
  by (simp add: request_unfold Let_def finally_requested_def trace_invoke split: option.split)

lemma promise_finally_requested: "promise (finally_requested w info fl) = promise fl"
  by (simp add: finally_requested_def promise_invoke split: option.split)

lemma settled_request:
  "settled (fst (request w this act service noun dat settles))
     = promise (snd (caught_chain w act (sent_url this act service noun dat)
                       (sent_info this act service noun dat) settles
                       (at_fetch w this act service noun dat)))"
  by (simp add: request_unfold Let_def promise_finally_requested)

lemma uncaught_request:
  "uncaught (fst (request w this act service noun dat settles))
     = (case fst (caught_chain w act (sent_url this act service noun dat)
                       (sent_info this act service noun dat) settles
                       (at_fetch w this act service noun dat)) of
          Inl e \<Rightarrow> Some e | Inr _ \<Rightarrow> None)"
  by (simp add: request_unfold Let_def)

lemma request_replay:
  "snd (request w this act service noun dat settles)
     = replay w (events (fst (request w this act service noun dat settles))) this"
proof -
  let ?c = "caught_chain w act (sent_url this act service noun dat)
              (sent_info this act service noun dat) settles
              (at_fetch w this act service noun dat)"
  have "tracked w this (finally_requested w (sent_info this act service noun dat) (snd ?c))"
    using tracked_caught_chain [of w this act service noun dat settles]
    by (simp add: finally_requested_def tracked_def invoke_def replay_snoc split: option.split)
  then show ?thesis
    by (simp add: request_unfold Let_def tracked_def)
qed

text \<open>
  Claim C10. A call of \<^verbatim>\<open>request\<close> writes no field of the instance. Whatever
  the action, the payload and the way the transport settles (so also on status 401),
  the instance after the call is the instance before it on which the callbacks that
  were called have run, in the order of their calls, and nothing else; when the
  callbacks leave the instance alone, the domain, the token and the six slots are after
  the call what they were before it. Clearing the token on a 401 is left to the
  noSession callback.
\<close>

theorem request_frame:
  "snd (request w this act service noun dat settles)
     = replay w (events (fst (request w this act service noun dat settles))) this
   \<and> (callbacks_pure w \<longrightarrow> snd (request w this act service noun dat settles) = this)"
  using request_replay [of w this act service noun dat settles]
  by (simp add: replay_pure)

theorem request_frame_witness:
  "callbacks_pure (\<lambda>f c s. (Undefined, s))
   \<and> snd (request (\<lambda>f c s. (Undefined, s))
            (body\<lparr>noSession := Some 3, token := Some ''tok123''\<rparr>)
            Read ''svc'' ''noun'' JNull (Response 401 None (Inl ''SyntaxError'')))
       = body\<lparr>noSession := Some 3, token := Some ''tok123''\<rparr>"
proof -
  have pure: "callbacks_pure (\<lambda>f c s. (Undefined, s))"
    by (simp add: callbacks_pure_def)
  show ?thesis
    using pure
      request_frame [of "\<lambda>f c s. (Undefined, s)"
        "body\<lparr>noSession := Some 3, token := Some ''tok123''\<rparr>"
        Read "''svc''" "''noun''" JNull "Response 401 None (Inl ''SyntaxError'')"]
    by blast
qed

section \<open>The requested callback\<close>

lemma filter_as_concat: "filter P xs = concat (map (\<lambda>e. if P e then [e] else []) xs)"
  by (induction xs) simp_all

lemma filter_caught_chain:
  assumes "\<And>e. inner_event e \<Longrightarrow> \<not> P e"
  shows "filter P (trace (snd (caught_chain w act u info settles fl))) = filter P (trace fl)"
  unfolding filter_as_concat
  by (rule collect_caught_chain) (simp add: assms)

lemma requested_call_not_inner: "inner_event e \<Longrightarrow> \<not> is_requested_call e"
  by (cases e rule: is_requested_call.cases) simp_all

text \<open>
  Claim C9. However the transport settles (a rejected \<^verbatim>\<open>fetch\<close>, or a response of
  any status, content type and body, so whether the call resolves, rejects or goes to
  \<^verbatim>\<open>handleError\<close>), the events of a call are those up to the end of the
  \<^verbatim>\<open>catch\<close>, none of which is a call of a requested callback, followed by what the
  \<^verbatim>\<open>finally\<close> does: if a requested callback is set at that moment, exactly one call
  of it, with the action and the payload of the call, and nothing otherwise. When the
  callbacks register nothing while the call is in flight, the requested callback at that
  moment is the one the instance held when the call was made.
\<close>

theorem requested_fires_once:
  "\<exists>before u r.
     filter is_requested_call before = []
     \<and> events (fst (request w this act service noun dat settles))
         = before @ (case requested (replay w before this) of
                       None \<Rightarrow> []
                     | Some f \<Rightarrow>
                         [Call f (OnRequested
                                    \<lparr>action = act, data = dat, url = u, res = r\<rparr>)])
     \<and> (callbacks_keep_slots w \<longrightarrow> requested (replay w before this) = requested this)"
proof -
  let ?c = "caught_chain w act (sent_url this act service noun dat)
              (sent_info this act service noun dat) settles
              (at_fetch w this act service noun dat)"
  have self: "self (snd ?c) = replay w (trace (snd ?c)) this"
    using tracked_caught_chain [of w this act service noun dat settles]
    by (simp add: tracked_def)
  have "filter is_requested_call (trace (snd ?c))
          = filter is_requested_call (trace (at_fetch w this act service noun dat))"
    by (rule filter_caught_chain) (rule requested_call_not_inner)
  then have none: "filter is_requested_call (trace (snd ?c)) = []"
    by (simp add: trace_at_fetch split: option.split)
  have info: "(sent_info this act service noun dat)\<lparr>res := res_var (snd ?c)\<rparr>
                = \<lparr>action = act, data = dat, url = sent_url this act service noun dat,
                   res = res_var (snd ?c)\<rparr>"
    by (simp add: sent_info_def)
  have events: "events (fst (request w this act service noun dat settles))
                  = trace (snd ?c)
                    @ (case requested (replay w (trace (snd ?c)) this) of
                         None \<Rightarrow> []
                       | Some f \<Rightarrow>
                           [Call f (OnRequested
                              \<lparr>action = act, data = dat,
                               url = sent_url this act service noun dat,
                               res = res_var (snd ?c)\<rparr>)])"
    using request_events [of w this act service noun dat settles]
    unfolding info self [symmetric] .
  have keep: "requested (replay w (trace (snd ?c)) this) = requested this"
    if "callbacks_keep_slots w"
    using same_slots_caught_chain [OF that, of act this service noun dat settles]
    by (simp add: self same_slots_def)
  from none events keep show ?thesis
    by blast
qed

theorem requested_fires_once_witness:
  "callbacks_keep_slots (\<lambda>f c s. (Undefined, s\<lparr>token := None\<rparr>))
   \<and> (\<exists>before u r.
        filter is_requested_call before = []
        \<and> events (fst (request (\<lambda>f c s. (Undefined, s\<lparr>token := None\<rparr>))
                         (body\<lparr>requested := Some 4\<rparr>)
                         Read ''svc'' ''noun'' JNull (Response 500 None (Inl ''SyntaxError''))))
            = before @ [Call 4 (OnRequested
                                 \<lparr>action = Read, data = JNull, url = u, res = r\<rparr>)])"
proof -
  let ?w = "\<lambda>(f::callback) (c::call) (s::Body). (Undefined, s\<lparr>token := None\<rparr>)"
  have keep: "callbacks_keep_slots ?w"
    by (simp add: callbacks_keep_slots_def same_slots_def)
  from requested_fires_once [of ?w "body\<lparr>requested := Some 4\<rparr>" Read "''svc''" "''noun''"
      JNull "Response 500 None (Inl ''SyntaxError'')"]
  obtain before u r where
    "filter is_requested_call before = []"
    "events (fst (request ?w (body\<lparr>requested := Some 4\<rparr>)
                    Read ''svc'' ''noun'' JNull (Response 500 None (Inl ''SyntaxError''))))
       = before @ (case requested (replay ?w before (body\<lparr>requested := Some 4\<rparr>)) of
                     None \<Rightarrow> []
                   | Some f \<Rightarrow>
                       [Call f (OnRequested
                                  \<lparr>action = Read, data = JNull, url = u, res = r\<rparr>)])"
    "callbacks_keep_slots ?w \<longrightarrow>
       requested (replay ?w before (body\<lparr>requested := Some 4\<rparr>))
         = requested (body\<lparr>requested := Some 4\<rparr>)"
    by blast
  with keep show ?thesis
    by auto
qed

section \<open>The request handed to fetch\<close>

lemma request_fetches:
  "fetches (events (fst (request w this act service noun dat settles)))
     = [(sent_url this act service noun dat, sent_init this act dat)]"
proof -
  let ?c = "caught_chain w act (sent_url this act service noun dat)
              (sent_info this act service noun dat) settles
              (at_fetch w this act service noun dat)"
  have silent: "inner_event e \<Longrightarrow> fetch_of e = []" for e
    by (cases e) simp_all
  have "fetches (trace (snd ?c)) = fetches (trace (at_fetch w this act service noun dat))"
    unfolding fetches_def by (rule collect_caught_chain [OF silent])
  also have "\<dots> = [(sent_url this act service noun dat, sent_init this act dat)]"
    by (cases "requesting this") (simp_all add: fetches_def trace_at_fetch)
  finally have chain: "fetches (trace (snd ?c))
                         = [(sent_url this act service noun dat, sent_init this act dat)]" .
  have last: "fetches (case x of None \<Rightarrow> [] | Some f \<Rightarrow> [Call f (c f)]) = []"
    for x :: "callback option" and c
    by (cases x) (simp_all add: fetches_def)
  have append: "fetches (xs @ ys) = fetches xs @ fetches ys" for xs ys
    by (simp add: fetches_def)
  show ?thesis
    unfolding request_events append chain last by simp
qed

lemma hex_digit_cases: "hex_digit n \<in> set ''0123456789ABCDEF''"
  unfolding hex_digit_def by (rule nth_mem) simp

lemma encoded_char:
  assumes "c \<in> set (if unreserved x then [x]
                      else [CHR ''%'', hex_digit (of_char x div 16), hex_digit (of_char x)])"
  shows "c \<notin> {CHR ''&'', CHR ''='', CHR ''?'', CHR ''#'', CHR ''/''}"
proof (cases "unreserved x")
  case True
  with assms have "c = x" by simp
  with True show ?thesis
    by (auto simp add: unreserved_def)
next
  case False
  with assms have "c = CHR ''%'' \<or> c \<in> set ''0123456789ABCDEF''"
    using hex_digit_cases by auto
  then show ?thesis by auto
qed

lemma encodeURIComponent_chars:
  "c \<in> set (encodeURIComponent s) \<Longrightarrow>
   c \<notin> {CHR ''&'', CHR ''='', CHR ''?'', CHR ''#'', CHR ''/''}"
proof (induction s)
  case Nil
  then show ?case by (simp add: encodeURIComponent_def)
next
  case (Cons x s)
  from Cons.prems have
    "c \<in> set (if unreserved x then [x]
               else [CHR ''%'', hex_digit (of_char x div 16), hex_digit (of_char x)])
     \<or> c \<in> set (encodeURIComponent s)"
    by (simp add: encodeURIComponent_def del: set_simps split: if_splits) 
  then show ?case
    using encoded_char Cons.IH by blast
qed

text \<open>
  Claim C5. Whatever the callbacks do and however the transport settles, a call of
  \<^verbatim>\<open>request\<close> hands exactly one request to \<^verbatim>\<open>fetch\<close>. Its method is the
  one \<^verbatim>\<open>METHODS\<close> gives for the action: POST for create, GET for read, PUT for
  update, DELETE for delete. For read with a payload other than \<^verbatim>\<open>null\<close>, the
  URL is \<^verbatim>\<open>https://domain/service/noun\<close> followed by \<^verbatim>\<open>?d=\<close> and the
  percent-encoded JSON text of the payload, in which no \<^verbatim>\<open>&\<close>, \<^verbatim>\<open>=\<close>,
  \<^verbatim>\<open>?\<close>, \<^verbatim>\<open>#\<close> or \<^verbatim>\<open>/\<close> is left (so \<^verbatim>\<open>d\<close> is the only parameter),
  and there is no body. For the other actions with such a payload, the URL has no query,
  the body is the JSON text of the payload, and the \<^verbatim>\<open>Content-Type\<close> header is the
  JSON content type.
\<close>

theorem request_method_and_payload:
  "\<exists>u init.
     fetches (events (fst (request w this act service noun dat settles))) = [(u, init)]
     \<and> http_method init = METHODS act
     \<and> METHODS Create = ''POST'' \<and> METHODS Read = ''GET''
     \<and> METHODS Update = ''PUT'' \<and> METHODS Delete = ''DELETE''
     \<and> (act = Read \<and> dat \<noteq> JNull \<longrightarrow>
          u = ''https://'' @ u_domain this @ ''/'' @ service @ ''/'' @ noun
                @ ''?d='' @ encodeURIComponent (JSON_stringify dat)
          \<and> set (encodeURIComponent (JSON_stringify dat))
                \<inter> {CHR ''&'', CHR ''='', CHR ''?'', CHR ''#'', CHR ''/''} = {}
          \<and> body_text init = None)
     \<and> (act \<noteq> Read \<and> dat \<noteq> JNull \<longrightarrow>
          u = ''https://'' @ u_domain this @ ''/'' @ service @ ''/'' @ noun
          \<and> body_text init = Some (JSON_stringify dat)
          \<and> map_of (headers init) ''Content-Type'' = Some JSON_CONTENT_TYPE)"
proof -
  have "set (encodeURIComponent (JSON_stringify dat))
          \<inter> {CHR ''&'', CHR ''='', CHR ''?'', CHR ''#'', CHR ''/''} = {}"
    using encodeURIComponent_chars [of _ "JSON_stringify dat"] by blast
  then show ?thesis
    by (simp add: request_fetches sent_url_def sent_init_def)
qed

theorem request_method_and_payload_witness:
  "(\<exists>u init.
      fetches (events (fst (request (\<lambda>f c s. (Undefined, s)) body Read ''svc'' ''noun''
                              (JObj [(''id'', JStr ''abc'')])
                              (Failed ''TypeError: Failed to fetch'')))) = [(u, init)]
      \<and> http_method init = ''GET''
      \<and> u = ''https://localhost/svc/noun?d=%7B%22id%22%3A%22abc%22%7D''
      \<and> body_text init = None)
   \<and> (\<exists>u init.
      fetches (events (fst (request (\<lambda>f c s. (Undefined, s)) body Create ''svc'' ''noun''
                              (JObj [(''name'', JStr ''x'')])
                              (Failed ''TypeError: Failed to fetch'')))) = [(u, init)]
      \<and> http_method init = ''POST''
      \<and> u = ''https://localhost/svc/noun''
      \<and> body_text init = Some (JSON_stringify (JObj [(''name'', JStr ''x'')]))
      \<and> JSON_stringify (JObj [(''name'', JStr ''x'')])
            = [CHR ''{'', CHR 0x22, CHR ''n'', CHR ''a'', CHR ''m'', CHR ''e'', CHR 0x22,
               CHR '':'', CHR 0x22, CHR ''x'', CHR 0x22, CHR ''}''])"
proof -
  have enc: "encodeURIComponent (JSON_stringify (JObj [(''id'', JStr ''abc'')]))
               = ''%7B%22id%22%3A%22abc%22%7D''"
    by (simp add: encodeURIComponent_def quote_def escape_char_def unreserved_def
          hex_digit_def)
  have str: "JSON_stringify (JObj [(''name'', JStr ''x'')])
               = [CHR ''{'', CHR 0x22, CHR ''n'', CHR ''a'', CHR ''m'', CHR ''e'', CHR 0x22,
                  CHR '':'', CHR 0x22, CHR ''x'', CHR 0x22, CHR ''}'']"
    by (simp add: quote_def escape_char_def)
  show ?thesis
    using request_method_and_payload [of "\<lambda>f c s. (Undefined, s)" body Read "''svc''"
        "''noun''" "JObj [(''id'', JStr ''abc'')]" "Failed ''TypeError: Failed to fetch''"]
      request_method_and_payload [of "\<lambda>f c s. (Undefined, s)" body Create "''svc''"
        "''noun''" "JObj [(''name'', JStr ''x'')]" "Failed ''TypeError: Failed to fetch''"]
    unfolding enc str
    by (auto simp add: body_def)
qed

lemma request_authorization:
  "authorization (fst (request w this act service noun dat settles))
     = [if truthy_string (token this) then token this else None]"
  by (cases "token this") (simp_all add: authorization_def request_fetches sent_init_def)

text \<open>
  Claim C6. The value of the \<^verbatim>\<open>Authorization\<close> header of the one request of a
  call: when the instance holds a token that is not the empty string, it is that token,
  as it is; so it is after \<^verbatim>\<open>session(tok)\<close> with such a token. After
  \<^verbatim>\<open>session(null)\<close> there is no such header. The empty string counts as no
  token, as \<^verbatim>\<open>null\<close> does.
\<close>

theorem session_token_header:
  "(\<forall>t. token this = Some t \<and> t \<noteq> [] \<longrightarrow>
      authorization (fst (request w this act service noun dat settles)) = [Some t])
   \<and> (tok \<noteq> [] \<longrightarrow>
        authorization
          (fst (request w (snd (session (Some (Some tok)) this)) act service noun dat settles))
          = [Some tok])
   \<and> authorization
        (fst (request w (snd (session (Some None) (snd (session (Some (Some tok)) this))))
                act service noun dat settles))
        = [None]
   \<and> authorization
        (fst (request w (snd (session (Some (Some [])) this)) act service noun dat settles))
        = [None]"
  by (simp add: request_authorization session_def)

theorem session_token_header_witness:
  "authorization
     (fst (request (\<lambda>f c s. (Undefined, s)) (snd (session (Some (Some ''tok123'')) body))
             Read ''svc'' ''noun'' JNull (Response 200 None (Inr JNull))))
     = [Some ''tok123'']
   \<and> authorization
     (fst (request (\<lambda>f c s. (Undefined, s))
             (snd (session (Some None) (snd (session (Some (Some ''tok123'')) body))))
             Read ''svc'' ''noun'' JNull (Response 200 None (Inr JNull))))
     = [None]"
  using session_token_header [of "snd (session (Some (Some ''tok123'')) body)"
      "\<lambda>f c s. (Undefined, s)" Read "''svc''" "''noun''" JNull
      "Response 200 None (Inr JNull)" "''tok123''"]
    session_token_header [of body
      "\<lambda>f c s. (Undefined, s)" Read "''svc''" "''noun''" JNull
      "Response 200 None (Inr JNull)" "''tok123''"]
  by (simp add: session_def)

section \<open>Classification of the response\<close>

text \<open>Only the error block and the data block settle the promise.\<close>

lemma promise_handleError: "promise (snd (handleError w info m fl)) = promise fl"
  by (simp add: handleError_def promise_invoke split: option.split)

lemma promise_then_response:
  "promise (snd (then_response w act u info status ct parsed fl)) = promise fl"
  unfolding then_response_def
  by (simp add: promise_invoke promise_handleError case_prod_beta split: option.split sum.split)

lemma promise_catch_reason: "promise (snd (catch_reason w act u info reason fl)) = promise fl"
  by (simp add: catch_reason_def promise_handleError)

lemma promise_warning_block: "promise (snd (warning_block w info v fl)) = promise fl"
  unfolding warning_block_def
  by (simp add: promise_invoke split: option.split sum.split jsval.split)

lemma property_has_key: "property v k = Value e \<Longrightarrow> has_key k v = Inr True"
  by (cases v) (auto split: option.splits dest: map_of_SomeD intro: rev_image_eqI)

lemma error_block_eq:
  "error_block w info v fl =
     (case has_key ''error'' v of
        Inl e \<Rightarrow> (Inl e, fl)
      | Inr _ \<Rightarrow>
          (case property v ''error'' of
             Undefined \<Rightarrow> (Inr False, fl)
           | Value e \<Rightarrow>
               if truthy e then
                 (Inr (rejects w (self fl) info e),
                  (if rejects w (self fl) info e then reject (Value e) else id)
                    (case errorCode (self fl) of
                       None \<Rightarrow> fl
                     | Some f \<Rightarrow> snd (invoke w f (OnErrorCode e info) fl)))
               else (Inr False, fl)))"
proof (cases "property v ''error''")
  case Undefined
  then show ?thesis
    by (simp add: error_block_def split: sum.split)
next
  case (Value e)
  then show ?thesis
    unfolding error_block_def rejects_def
    by (simp add: property_has_key [OF Value] invoke_def split: option.split)
qed

lemma then_result_quiet:
  assumes "has_key ''data'' v \<noteq> Inr True"
    and "\<And>e. property v ''error'' = Value e \<Longrightarrow> truthy e
           \<Longrightarrow> \<not> rejects w (self fl) (info\<lparr>res := Some v\<rparr>) e"
  shows "promise (snd (then_result w info (Value v) fl)) = promise fl"
proof (cases "truthy v")
  case False
  then show ?thesis by (simp add: then_result_def)
next
  case True
  have data: "promise (snd (data_block v fl')) = promise fl'" for fl'
    using assms(1) by (simp add: data_block_def split: sum.split)
  have err: "promise (snd (error_block w (info\<lparr>res := Some v\<rparr>) v (fl\<lparr>res_var := Some v\<rparr>)))
               = promise fl"
    using assms(2)
    by (simp add: error_block_eq promise_invoke split: sum.split jsval.split option.split)
  show ?thesis
    using True
    by (simp add: then_result_def Let_def case_prod_beta data err promise_warning_block
          split: sum.split bool.split)
qed

lemma then_response_result:
  "fst (then_response w act u info status ct (Inr v) fl) = Inr r
   \<Longrightarrow> r = Undefined \<or> r = Value v"
  unfolding then_response_def
  by (simp add: case_prod_beta split: if_splits option.splits sum.splits)

lemma caught_chain_quiet:
  assumes "callbacks_keep_slots w"
    and "has_key ''data'' v \<noteq> Inr True"
    and "\<And>e. property v ''error'' = Value e \<Longrightarrow> truthy e
           \<Longrightarrow> \<exists>f. errorCode (self fl) = Some f
                  \<and> (\<forall>i s. fst (w f (OnErrorCode e i) s) \<noteq> Value (JBool False))"
  shows "promise (snd (caught_chain w act u info (Response status ct (Inr v)) fl)) = promise fl"
proof -
  let ?a = "then_response w act u info status ct (Inr v) fl"
  have "same_slots (self (snd ?a)) (self fl)"
    by (rule stable_then_response [OF stable_same_slots [OF assms(1)] same_slots_refl])
  then have "\<not> rejects w (self (snd ?a)) i e"
    if "property v ''error'' = Value e" and "truthy e" for e i
    using assms(3) [OF that] by (auto simp add: rejects_def same_slots_def)
  then have quiet: "promise (snd (then_result w info (Value v) (snd ?a))) = promise fl"
    using then_result_quiet [OF assms(2), of w "snd ?a" info]
    by (simp add: promise_then_response)
  show ?thesis
  proof (cases "fst ?a")
    case (Inl e)
    then show ?thesis
      by (simp add: caught_chain_def Let_def case_prod_beta promise_catch_reason
            promise_then_response)
  next
    case (Inr r)
    then have "r = Undefined \<or> r = Value v"
      by (rule then_response_result)
    then show ?thesis
    proof
      assume "r = Undefined"
      with Inr show ?thesis
        by (simp add: caught_chain_def Let_def case_prod_beta then_result_def
              promise_then_response)
    next
      assume "r = Value v"
      with Inr quiet show ?thesis
        by (simp add: caught_chain_def Let_def case_prod_beta promise_catch_reason
              split: sum.split)
    qed
  qed
qed

text \<open>
  Claim C2, as amended. The callbacks register nothing while the call is in flight. The
  body of the response parses to a value that has no \<^verbatim>\<open>data\<close> field, and any
  truthy \<^verbatim>\<open>error\<close> it has is taken by an errorCode callback that is set and does
  not return \<^verbatim>\<open>false\<close> (so the error block does not reject); this includes the
  empty object. Then, whatever the status and the content type, the promise of the call
  is left as it was created: neither \<^verbatim>\<open>resolve\<close> nor \<^verbatim>\<open>reject\<close> is
  called.
\<close>

theorem no_data_no_rejection_stays_pending:
  assumes "callbacks_keep_slots w"
    and "has_key ''data'' v \<noteq> Inr True"
    and "\<forall>e. property v ''error'' = Value e \<and> truthy e \<longrightarrow>
           (\<exists>f. errorCode this = Some f
              \<and> (\<forall>i s. fst (w f (OnErrorCode e i) s) \<noteq> Value (JBool False)))"
  shows "settled (fst (request w this act service noun dat (Response status ct (Inr v))))
           = Pending"
proof -
  have "errorCode (self (at_fetch w this act service noun dat)) = errorCode this"
    using same_slots_at_fetch [OF assms(1), of this act service noun dat]
    by (simp add: same_slots_def)
  with assms(3) have
    "\<exists>f. errorCode (self (at_fetch w this act service noun dat)) = Some f
        \<and> (\<forall>i s. fst (w f (OnErrorCode e i) s) \<noteq> Value (JBool False))"
    if "property v ''error'' = Value e" and "truthy e" for e
    using that by simp
  then show ?thesis
    by (simp add: settled_request caught_chain_quiet [OF assms(1,2)] promise_at_fetch)
qed

theorem no_data_no_rejection_stays_pending_witness:
  "callbacks_keep_slots (\<lambda>f c s. (Undefined, s))
   \<and> has_key ''data'' (JObj [(''error'', JObj [(''code'', JNum 1001)])]) \<noteq> Inr True
   \<and> settled (fst (request (\<lambda>f c s. (Undefined, s)) (body\<lparr>errorCode := Some 2\<rparr>)
                      Read ''svc'' ''noun'' JNull
                      (Response 200 (Some JSON_CONTENT_TYPE)
                         (Inr (JObj [(''error'', JObj [(''code'', JNum 1001)])]))))) = Pending"
proof -
  have keep: "callbacks_keep_slots (\<lambda>f c s. (Undefined, s))"
    by (simp add: callbacks_keep_slots_def same_slots_def)
  have nodata: "has_key ''data'' (JObj [(''error'', JObj [(''code'', JNum 1001)])]) \<noteq> Inr True"
    by simp
  have handled: "\<forall>e. property (JObj [(''error'', JObj [(''code'', JNum 1001)])]) ''error''
                      = Value e \<and> truthy e \<longrightarrow>
           (\<exists>f. errorCode (body\<lparr>errorCode := Some 2\<rparr>) = Some f
              \<and> (\<forall>i s. fst ((\<lambda>f c s. (Undefined, s)) f (OnErrorCode e i) s)
                          \<noteq> Value (JBool False)))"
    by simp
  show ?thesis
    using keep nodata
      no_data_no_rejection_stays_pending [OF keep nodata handled, of Read "''svc''" "''noun''"
        JNull 200 "Some JSON_CONTENT_TYPE"]
    by simp
qed

text \<open>
  Claim C2 as stated fails: for the empty envelope the promise is not resolved with
  \<^verbatim>\<open>undefined\<close>; it stays pending.
\<close>

theorem empty_envelope_counterexample:
  "settled (fst (request (\<lambda>f c s. (Undefined, s)) body Read ''svc'' ''noun'' JNull
                   (Response 200 (Some JSON_CONTENT_TYPE) (Inr (JObj [])))))
     = Pending
   \<and> settled (fst (request (\<lambda>f c s. (Undefined, s)) body Read ''svc'' ''noun'' JNull
                   (Response 200 (Some JSON_CONTENT_TYPE) (Inr (JObj [])))))
     \<noteq> Resolved Undefined"
  by code_simp

lemma fst_warning_block_object: "fst (warning_block w info (JObj kvs) fl) = Inr ()"
  by (simp add: warning_block_def split: jsval.split option.split)

lemma promise_data_block_object:
  "promise fl = Pending \<Longrightarrow>
   promise (snd (data_block (JObj kvs) fl))
     = (case map_of kvs ''data'' of Some d \<Rightarrow> Resolved (Value d) | None \<Rightarrow> Pending)"
  by (auto simp add: data_block_def resolve_def map_of_eq_None_iff [symmetric]
        split: option.split)

lemma fst_data_block_object: "fst (data_block (JObj kvs) fl) = Inr ()"
  by (simp add: data_block_def)

lemma then_result_error:
  assumes "map_of kvs ''error'' = Some e" and "truthy e" and "promise fl = Pending"
  shows "errorCode (self fl) = None \<Longrightarrow>
         promise (snd (then_result w info (Value (JObj kvs)) fl)) = Rejected (Value e)"
    and "errorCode (self fl) = Some f \<Longrightarrow>
         promise (snd (then_result w info (Value (JObj kvs)) fl))
           = (if fst (w f (OnErrorCode e (info\<lparr>res := Some (JObj kvs)\<rparr>)) (self fl))
                  = Value (JBool False)
              then Rejected (Value e)
              else (case map_of kvs ''data'' of
                      Some d \<Rightarrow> Resolved (Value d) | None \<Rightarrow> Pending))"
    and "errorCode (self fl) = Some f \<Longrightarrow>
         \<exists>rest. trace (snd (then_result w info (Value (JObj kvs)) fl))
                  = (trace fl @ [Call f (OnErrorCode e (info\<lparr>res := Some (JObj kvs)\<rparr>))])
                    @ rest"
    and "fst (then_result w info (Value (JObj kvs)) fl) = Inr ()"
proof -
  let ?info = "info\<lparr>res := Some (JObj kvs)\<rparr>"
  let ?fl1 = "fl\<lparr>res_var := Some (JObj kvs)\<rparr>"
  let ?fl2 = "case errorCode (self fl) of
                None \<Rightarrow> ?fl1
              | Some f \<Rightarrow> snd (invoke w f (OnErrorCode e ?info) ?fl1)"
  let ?rej = "rejects w (self fl) ?info e"
  have block: "error_block w ?info (JObj kvs) ?fl1
                 = (Inr ?rej, (if ?rej then reject (Value e) else id) ?fl2)"
    using assms(1,2) by (simp add: error_block_eq)
  have then_result:
    "then_result w info (Value (JObj kvs)) fl
       = (if ?rej then (Inr (), reject (Value e) ?fl2)
          else (case warning_block w ?info (JObj kvs) ?fl2 of
                  (Inl e, fl3) \<Rightarrow> (Inl e, fl3)
                | (Inr _, fl3) \<Rightarrow> data_block (JObj kvs) fl3))"
    by (simp add: then_result_def Let_def block)
  have pending: "promise ?fl2 = Pending"
    using assms(3) by (simp add: promise_invoke split: option.split)
  have promise: "promise (snd (then_result w info (Value (JObj kvs)) fl))
                   = (if ?rej then Rejected (Value e)
                      else (case map_of kvs ''data'' of
                              Some d \<Rightarrow> Resolved (Value d) | None \<Rightarrow> Pending))"
    using pending
    by (simp add: then_result case_prod_beta fst_warning_block_object reject_def
          promise_data_block_object promise_warning_block)
  show "promise (snd (then_result w info (Value (JObj kvs)) fl)) = Rejected (Value e)"
    if "errorCode (self fl) = None"
    using that by (simp add: promise rejects_def)
  show "promise (snd (then_result w info (Value (JObj kvs)) fl))
           = (if fst (w f (OnErrorCode e ?info) (self fl)) = Value (JBool False)
              then Rejected (Value e)
              else (case map_of kvs ''data'' of
                      Some d \<Rightarrow> Resolved (Value d) | None \<Rightarrow> Pending))"
    if "errorCode (self fl) = Some f"
    using that by (simp add: promise rejects_def)
  show "fst (then_result w info (Value (JObj kvs)) fl) = Inr ()"
    by (simp add: then_result case_prod_beta fst_warning_block_object fst_data_block_object)
  show "\<exists>rest. trace (snd (then_result w info (Value (JObj kvs)) fl))
                  = (trace fl @ [Call f (OnErrorCode e ?info)]) @ rest"
    if "errorCode (self fl) = Some f"
  proof -
    let ?I = "\<lambda>fl'. \<exists>rest. trace fl' = (trace fl @ [Call f (OnErrorCode e ?info)]) @ rest"
    have start: "?I ?fl2"
      using that by (simp add: trace_invoke)
    then have "?I (reject (Value e) ?fl2)"
      by (rule stable_reject [OF stable_extends])
    moreover from start
    have "?I (snd (data_block (JObj kvs) (snd (warning_block w ?info (JObj kvs) ?fl2))))"
      by (intro stable_data_block [OF stable_extends]
            stable_warning_block [OF stable_extends])
    ultimately show ?thesis
      by (simp add: then_result case_prod_beta fst_warning_block_object)
  qed
qed

lemma then_response_parsed:
  assumes "response_ok status" and "ct = Some JSON_CONTENT_TYPE"
  shows "then_response w act u info status ct (Inr v) fl
           = (Inr (Value v), fl\<lparr>trace := trace fl @ [Json]\<rparr>)"
  using assms
  by (simp add: then_response_def JSON_CONTENT_TYPE_def)

text \<open>
  Claim C1, as amended. The callbacks register nothing while the call is in flight. The
  response is 2xx with the JSON content type and its body parses to an object with a
  truthy \<^verbatim>\<open>error\<close>. If no errorCode callback is set, the promise is rejected with
  the error. If one is set, it is called with the error and
  \<^verbatim>\<open>{ action, data, res, url }\<close>, \<^verbatim>\<open>res\<close> being the parsed object; when that
  call returns exactly \<^verbatim>\<open>false\<close> the promise is rejected with the error, and
  when it returns anything else the error is dropped and classification goes on: the
  promise is resolved with \<^verbatim>\<open>data\<close> if the object has that field and is left
  pending otherwise.
\<close>

theorem error_envelope:
  assumes "callbacks_keep_slots w"
    and "response_ok status"
    and "ct = Some JSON_CONTENT_TYPE"
    and "map_of kvs ''error'' = Some e" and "truthy e"
  shows "(errorCode this = None \<longrightarrow>
            settled (fst (request w this act service noun dat
                            (Response status ct (Inr (JObj kvs))))) = Rejected (Value e))
         \<and> (\<forall>f. errorCode this = Some f \<longrightarrow>
              (\<exists>before after u.
                 events (fst (request w this act service noun dat
                                (Response status ct (Inr (JObj kvs)))))
                   = before
                     @ [Call f (OnErrorCode e
                                  \<lparr>action = act, data = dat, url = u,
                                   res = Some (JObj kvs)\<rparr>)]
                     @ after
                 \<and> settled (fst (request w this act service noun dat
                                    (Response status ct (Inr (JObj kvs)))))
                     = (if fst (w f (OnErrorCode e
                                      \<lparr>action = act, data = dat, url = u,
                                       res = Some (JObj kvs)\<rparr>)
                                  (replay w before this))
                            = Value (JBool False)
                        then Rejected (Value e)
                        else (case map_of kvs ''data'' of
                                Some d \<Rightarrow> Resolved (Value d)
                              | None \<Rightarrow> Pending))))"
proof -
  let ?u = "sent_url this act service noun dat"
  let ?info = "sent_info this act service noun dat"
  let ?info' = "\<lparr>action = act, data = dat, url = ?u, res = Some (JObj kvs)\<rparr>"
  let ?start = "at_fetch w this act service noun dat"
  let ?a = "?start\<lparr>trace := trace ?start @ [Json]\<rparr>"
  let ?b = "snd (then_result w ?info (Value (JObj kvs)) ?a)"
  let ?out = "fst (request w this act service noun dat (Response status ct (Inr (JObj kvs))))"
  have info: "?info\<lparr>res := Some (JObj kvs)\<rparr> = ?info'"
    by (simp add: sent_info_def)
  have slots: "errorCode (self ?a) = errorCode this"
    using same_slots_at_fetch [OF assms(1), of this act service noun dat]
    by (simp add: same_slots_def)
  have self_a: "self ?a = replay w (trace ?a) this"
    using tracked_at_fetch [of w this act service noun dat]
    by (simp add: tracked_def replay_snoc)
  have pending: "promise ?a = Pending"
    by (simp add: promise_at_fetch)
  note b = then_result_error [OF assms(4,5) pending, where info = ?info and w = w,
    unfolded info]
  have chain: "caught_chain w act ?u ?info (Response status ct (Inr (JObj kvs))) ?start
                 = (Inr (), ?b)"
    by (simp add: caught_chain_def Let_def case_prod_beta
          then_response_parsed [OF assms(2,3)] b(4))
  have settled: "settled ?out = promise ?b"
    by (simp add: settled_request chain)
  have events: "\<exists>fin. events ?out = trace ?b @ fin"
    by (simp add: request_events chain)
  have none: "settled ?out = Rejected (Value e)" if "errorCode this = None"
  proof -
    from that have "errorCode (self ?a) = None"
      by (simp only: slots)
    then show ?thesis
      unfolding settled by (rule b(1))
  qed
  have some: "\<exists>before after u.
                 events ?out
                   = before
                     @ [Call f (OnErrorCode e
                                  \<lparr>action = act, data = dat, url = u,
                                   res = Some (JObj kvs)\<rparr>)]
                     @ after
                 \<and> settled ?out
                     = (if fst (w f (OnErrorCode e
                                      \<lparr>action = act, data = dat, url = u,
                                       res = Some (JObj kvs)\<rparr>)
                                  (replay w before this))
                            = Value (JBool False)
                        then Rejected (Value e)
                        else (case map_of kvs ''data'' of
                                Some d \<Rightarrow> Resolved (Value d)
                              | None \<Rightarrow> Pending))"
    if f: "errorCode this = Some f" for f
  proof -
    from f have f': "errorCode (self ?a) = Some f"
      by (simp only: slots)
    from b(3) [OF f'] obtain rest where
      "trace ?b = (trace ?a @ [Call f (OnErrorCode e ?info')]) @ rest"
      by blast
    with events obtain fin where
      "events ?out = trace ?a @ [Call f (OnErrorCode e ?info')] @ (rest @ fin)"
      by auto
    moreover have "settled ?out
                     = (if fst (w f (OnErrorCode e ?info') (replay w (trace ?a) this))
                            = Value (JBool False)
                        then Rejected (Value e)
                        else (case map_of kvs ''data'' of
                                Some d \<Rightarrow> Resolved (Value d)
                              | None \<Rightarrow> Pending))"
      unfolding settled b(2) [OF f'] self_a [symmetric] ..
    ultimately show ?thesis
      by blast
  qed
  from none some show ?thesis
    by blast
qed

theorem error_envelope_witness:
  "callbacks_keep_slots (\<lambda>f c s. (Value (JBool False), s))
   \<and> response_ok 200
   \<and> truthy (JObj [(''code'', JNum 1001), (''msg'', JStr ''bad field'')])
   \<and> settled (fst (request (\<lambda>f c s. (Value (JBool False), s)) body
                      Read ''svc'' ''noun'' JNull
                      (Response 200 (Some JSON_CONTENT_TYPE)
                         (Inr (JObj [(''error'',
                                      JObj [(''code'', JNum 1001),
                                            (''msg'', JStr ''bad field'')])])))))
       = Rejected (Value (JObj [(''code'', JNum 1001), (''msg'', JStr ''bad field'')]))
   \<and> settled (fst (request (\<lambda>f c s. (Value (JBool False), s)) (body\<lparr>errorCode := Some 2\<rparr>)
                      Read ''svc'' ''noun'' JNull
                      (Response 200 (Some JSON_CONTENT_TYPE)
                         (Inr (JObj [(''error'',
                                      JObj [(''code'', JNum 1001),
                                            (''msg'', JStr ''bad field'')])])))))
       = Rejected (Value (JObj [(''code'', JNum 1001), (''msg'', JStr ''bad field'')]))"
proof -
  let ?w = "\<lambda>(f::callback) (c::call) (s::Body). (Value (JBool False), s)"
  let ?e = "JObj [(''code'', JNum 1001), (''msg'', JStr ''bad field'')]"
  have keep: "callbacks_keep_slots ?w"
    by (simp add: callbacks_keep_slots_def same_slots_def)
  have ok: "response_ok 200"
    by (simp add: response_ok_def)
  have ct: "Some JSON_CONTENT_TYPE = Some JSON_CONTENT_TYPE"
    by simp
  have err: "map_of [(''error'', ?e)] ''error'' = Some ?e"
    by simp
  have truthy: "truthy ?e"
    by simp
  show ?thesis
    using keep ok truthy
      error_envelope [OF keep ok ct err truthy, of body Read "''svc''" "''noun''" JNull]
      error_envelope [OF keep ok ct err truthy, of "body\<lparr>errorCode := Some 2\<rparr>"
        Read "''svc''" "''noun''" JNull]
    by (auto simp add: body_def)
qed

text \<open>
  Claim C1 as stated fails, both ways: with an errorCode callback that returns
  \<^verbatim>\<open>false\<close> the promise is rejected although the envelope has
  \<^verbatim>\<open>data\<close>, and with one that returns \<^verbatim>\<open>true\<close> the error is dropped and
  the promise is resolved with the data.
\<close>

theorem error_callback_false_counterexample:
  "settled (fst (request (\<lambda>f c s. (Value (JBool False), s)) (body\<lparr>errorCode := Some 2\<rparr>)
                   Read ''svc'' ''noun'' JNull
                   (Response 200 (Some JSON_CONTENT_TYPE)
                      (Inr (JObj [(''error'', JObj [(''code'', JNum 1001)]),
                                  (''data'', JNum 42)])))))
     = Rejected (Value (JObj [(''code'', JNum 1001)]))
   \<and> settled (fst (request (\<lambda>f c s. (Value (JBool True), s)) (body\<lparr>errorCode := Some 2\<rparr>)
                   Read ''svc'' ''noun'' JNull
                   (Response 200 (Some JSON_CONTENT_TYPE)
                      (Inr (JObj [(''error'', JObj [(''code'', JNum 1001)]),
                                  (''data'', JNum 42)])))))
     = Resolved (Value (JNum 42))"
  by code_simp

lemma caught_chain_401:
  "caught_chain w act u info (Response 401 ct parsed) fl =
     (case noSession (self fl) of
        Some f \<Rightarrow> (Inr (), snd (invoke w f OnNoSession fl))
      | None \<Rightarrow>
          handleError w info
            (METHODS act @ '' '' @ u @ '' failed because of '' @ [CHR 0x22]
               @ ''Error: '' @ METHODS act @ '' '' @ u @ '' return 401 NOT AUTHORIZED''
               @ [CHR 0x22]) fl)"
  by (simp add: caught_chain_def then_response_def then_result_def catch_reason_def
        response_ok_def split: option.split)

lemma inner_at_fetch:
  "filter inner_event (trace (at_fetch w this act service noun dat)) = []"
  by (simp add: trace_at_fetch split: option.split)

lemma inner_requested:
  "filter inner_event (case x of None \<Rightarrow> [] | Some f \<Rightarrow> [Call f (OnRequested (i f))]) = []"
  by (cases x) simp_all

text \<open>
  Claim C4, as amended. The callbacks register nothing while the call is in flight, and
  the status is 401. Of the callbacks of the chain and the parse of the body
  (\<open>inner_event\<close>): if a noSession callback is set, it is called (it takes no
  argument) and nothing else happens, the promise is neither resolved nor rejected, and
  the chain ends without an error. If none is set, the \<^verbatim>\<open>Error\<close> that is thrown
  goes to the \<^verbatim>\<open>catch\<close>, hence to \<^verbatim>\<open>handleError\<close>: with no error callback
  it is thrown again and the chain ends with it; with an error callback, that callback
  is called with the message and the chain ends without an error. The promise stays
  pending in all three cases.
\<close>

theorem unauthorized_response:
  assumes "callbacks_keep_slots w"
  shows "(\<forall>f. noSession this = Some f \<longrightarrow>
            filter inner_event
              (events (fst (request w this act service noun dat (Response 401 ct parsed))))
              = [Call f OnNoSession]
            \<and> settled (fst (request w this act service noun dat (Response 401 ct parsed)))
                = Pending
            \<and> uncaught (fst (request w this act service noun dat (Response 401 ct parsed)))
                = None)
         \<and> (noSession this = None \<and> error this = None \<longrightarrow>
              uncaught (fst (request w this act service noun dat (Response 401 ct parsed)))
                \<noteq> None
              \<and> filter inner_event
                  (events (fst (request w this act service noun dat (Response 401 ct parsed))))
                  = []
              \<and> settled (fst (request w this act service noun dat (Response 401 ct parsed)))
                  = Pending)
         \<and> (\<forall>g. noSession this = None \<and> error this = Some g \<longrightarrow>
              uncaught (fst (request w this act service noun dat (Response 401 ct parsed)))
                = None
              \<and> (\<exists>m i. filter inner_event
                          (events (fst (request w this act service noun dat
                                          (Response 401 ct parsed))))
                          = [Call g (OnError m i)])
              \<and> settled (fst (request w this act service noun dat (Response 401 ct parsed)))
                  = Pending)"
proof -
  let ?start = "at_fetch w this act service noun dat"
  have slots: "noSession (self ?start) = noSession this" "error (self ?start) = error this"
    using same_slots_at_fetch [OF assms, of this act service noun dat]
    by (simp_all add: same_slots_def)
  show ?thesis
    by (simp add: request_events settled_request uncaught_request caught_chain_401 slots
          handleError_def trace_invoke promise_invoke promise_at_fetch inner_at_fetch
          inner_requested)
qed

theorem unauthorized_response_witness:
  "callbacks_keep_slots (\<lambda>f c s. (Undefined, s\<lparr>token := None\<rparr>))
   \<and> filter inner_event
        (events (fst (request (\<lambda>f c s. (Undefined, s\<lparr>token := None\<rparr>))
                        (body\<lparr>error := Some 1, noSession := Some 3, token := Some ''tok123''\<rparr>)
                        Read ''svc'' ''noun'' JNull (Response 401 None (Inl ''SyntaxError'')))))
       = [Call 3 OnNoSession]
   \<and> uncaught (fst (request (\<lambda>f c s. (Undefined, s\<lparr>token := None\<rparr>))
                       (body\<lparr>error := Some 1, noSession := Some 3, token := Some ''tok123''\<rparr>)
                       Read ''svc'' ''noun'' JNull (Response 401 None (Inl ''SyntaxError''))))
       = None
   \<and> uncaught (fst (request (\<lambda>f c s. (Undefined, s\<lparr>token := None\<rparr>)) body
                       Read ''svc'' ''noun'' JNull (Response 401 None (Inl ''SyntaxError''))))
       \<noteq> None
   \<and> uncaught (fst (request (\<lambda>f c s. (Undefined, s\<lparr>token := None\<rparr>))
                       (body\<lparr>error := Some 1\<rparr>)
                       Read ''svc'' ''noun'' JNull (Response 401 None (Inl ''SyntaxError''))))
       = None"
proof -
  let ?w = "\<lambda>(f::callback) (c::call) (s::Body). (Undefined, s\<lparr>token := None\<rparr>)"
  have keep: "callbacks_keep_slots ?w"
    by (simp add: callbacks_keep_slots_def same_slots_def)
  show ?thesis
    using keep
      unauthorized_response [OF keep,
        of "body\<lparr>error := Some 1, noSession := Some 3, token := Some ''tok123''\<rparr>"
        Read "''svc''" "''noun''" JNull None "Inl ''SyntaxError''"]
      unauthorized_response [OF keep, of body
        Read "''svc''" "''noun''" JNull None "Inl ''SyntaxError''"]
      unauthorized_response [OF keep, of "body\<lparr>error := Some 1\<rparr>"
        Read "''svc''" "''noun''" JNull None "Inl ''SyntaxError''"]
    by (simp add: body_def)
qed

text \<open>
  Claim C4 as stated fails: with no noSession callback but an error callback, a 401 is
  not fatal. The error callback gets it, and the chain ends without an error.
\<close>

theorem unauthorized_not_fatal_counterexample:
  \<open>uncaught (fst (request (\<lambda>f c s. (Undefined, s)) (body\<lparr>error := Some 1\<rparr>)
                    Read ''svc'' ''noun'' JNull (Response 401 None (Inl ''SyntaxError''))))
     = None
   \<and> filter is_error_call
        (events (fst (request (\<lambda>f c s. (Undefined, s)) (body\<lparr>error := Some 1\<rparr>)
                        Read ''svc'' ''noun'' JNull (Response 401 None (Inl ''SyntaxError'')))))
       = [Call 1
            (OnError
               ''GET https://localhost/svc/noun failed because of "Error: GET https://localhost/svc/noun return 401 NOT AUTHORIZED"''
               \<lparr>action = Read, data = JNull, url = ''https://localhost/svc/noun'',
                res = None\<rparr>)]\<close>
  by code_simp

text \<open>
  Claim C3. With an error callback set, a 2xx response whose content type is not the
  JSON one does go to \<^verbatim>\<open>handleError\<close>, with a message that names the method, the
  URL and the content type; but \<^verbatim>\<open>handleError\<close> returns, and the body is then
  parsed all the same (the event \<open>Json\<close>) and classified: here the promise is resolved
  with the data.
\<close>

theorem invalid_content_type_body_parsed:
  "fst (request (\<lambda>f c s. (Undefined, s)) (body\<lparr>error := Some 1\<rparr>) Read ''svc'' ''noun'' JNull
          (Response 200 (Some ''text/html'') (Inr (JObj [(''data'', JNum 42)]))))
   = \<lparr>events =
       [Fetch ''https://localhost/svc/noun''
          \<lparr>http_method = ''GET'',
           headers = [(''Content-Type'', ''application/json; charset=utf-8'')],
           body_text = None\<rparr>,
        Call 1 (OnError
                  ''GET https://localhost/svc/noun returned invalid Content-Type: text/html''
                  \<lparr>action = Read, data = JNull, url = ''https://localhost/svc/noun'',
                   res = None\<rparr>),
        Json],
      settled = Resolved (Value (JNum 42)),
      uncaught = None\<rparr>"
  by code_simp

section \<open>Registration\<close>

lemma slot_on_event:
  "k \<in> set kinds \<Longrightarrow>
   slot k (on_event cbs x s) = (if x = k then get_callback cbs k else slot k s)"
  by (auto simp add: kinds_def on_event_def slot_def)

lemma slot_fold_on_event:
  "k \<in> set kinds \<Longrightarrow>
   slot k (fold (on_event cbs) ks s) = (if k \<in> set ks then get_callback cbs k else slot k s)"
  by (induction ks arbitrary: s) (auto simp add: slot_on_event)

lemma slot_on:
  assumes "k \<in> set kinds"
  shows "map_of cbs k = Some v \<Longrightarrow> slot k (on cbs this) = v"
    and "map_of cbs k = None \<Longrightarrow> slot k (on cbs this) = slot k this"
proof -
  show "slot k (on cbs this) = v" if "map_of cbs k = Some v"
  proof -
    from that have "k \<in> set (map fst cbs)"
      by (auto dest: map_of_SomeD intro: rev_image_eqI)
    with that show ?thesis
      by (simp add: on_def slot_fold_on_event [OF assms] get_callback_def)
  qed
  show "slot k (on cbs this) = slot k this" if "map_of cbs k = None"
  proof -
    from that have "k \<notin> set (map fst cbs)"
      by (simp add: map_of_eq_None_iff)
    then show ?thesis
      by (simp add: on_def slot_fold_on_event [OF assms])
  qed
qed

lemma on_event_unknown: "x \<notin> set kinds \<Longrightarrow> on_event cbs x s = s"
  by (simp add: kinds_def on_event_def)

lemma fold_on_event_known:
  "fold (on_event cbs) (filter (\<lambda>k. k \<in> set kinds) ks) s = fold (on_event cbs) ks s"
  by (induction ks arbitrary: s) (simp_all add: on_event_unknown)

lemma map_of_known:
  "map_of (filter (\<lambda>p. fst p \<in> set kinds) cbs) k
     = (if k \<in> set kinds then map_of cbs k else None)"
  by (induction cbs) auto

lemma on_event_known:
  "on_event (filter (\<lambda>p. fst p \<in> set kinds) cbs) = on_event cbs"
proof (intro ext)
  fix x s
  have "get_callback (filter (\<lambda>p. fst p \<in> set kinds) cbs) k = get_callback cbs k"
    if "k \<in> set kinds" for k
    using that by (simp add: get_callback_def map_of_known)
  then show "on_event (filter (\<lambda>p. fst p \<in> set kinds) cbs) x s = on_event cbs x s"
    by (simp add: on_event_def kinds_def)
qed

lemma on_known: "on (filter (\<lambda>p. fst p \<in> set kinds) cbs) this = on cbs this"
proof -
  have "map fst (filter (\<lambda>p. fst p \<in> set kinds) cbs)
          = filter (\<lambda>k. k \<in> set kinds) (map fst cbs)"
    by (simp add: filter_map comp_def)
  then show ?thesis
    by (simp add: on_def on_event_known fold_on_event_known)
qed

lemma on_keeps:
  "u_domain (fold (on_event cbs) ks s) = u_domain s
   \<and> token (fold (on_event cbs) ks s) = token s"
  by (induction ks arbitrary: s) (simp_all add: on_event_def)

lemma request_from_slot:
  assumes "callbacks_keep_slots w"
  shows "list_all (from_slot this) (events (fst (request w this act service noun dat settles)))"
proof -
  let ?I = "\<lambda>fl. same_slots (self fl) this \<and> list_all (from_slot this) (trace fl)"
  let ?c = "caught_chain w act (sent_url this act service noun dat)
              (sent_info this act service noun dat) settles
              (at_fetch w this act service noun dat)"
  have "?I (at_fetch w this act service noun dat)"
    by (simp add: same_slots_at_fetch [OF assms] from_slot_at_fetch)
  then have "?I (snd ?c)"
    by (rule stable_caught_chain [OF stable_from_slot [OF assms]])
  then show ?thesis
    by (auto simp add: request_events same_slots_def slot_def split: option.split)
qed

text \<open>
  Claim C8. \<^verbatim>\<open>on\<close> stores, for each of the six kinds that is a key of its
  argument, the value under that key in the slot of that kind, whatever the slot held
  before; the slots of the kinds that are not keys stay as they were. Keys that are not
  kinds are ignored: the result is the same as without them, and the domain and the
  token are never touched (\<^verbatim>\<open>on\<close> has no failure). There is one slot for each
  kind, and a call dispatched afterwards calls, for a kind that was registered, the
  registered function and no other (the callbacks themselves registering nothing while
  the call is in flight).
\<close>

theorem on_registers:
  "(\<forall>k v. k \<in> set kinds \<and> map_of cbs k = Some v \<longrightarrow> slot k (on cbs this) = v)
   \<and> (\<forall>k. k \<in> set kinds \<and> map_of cbs k = None \<longrightarrow> slot k (on cbs this) = slot k this)
   \<and> on cbs this = on (filter (\<lambda>p. fst p \<in> set kinds) cbs) this
   \<and> u_domain (on cbs this) = u_domain this
   \<and> token (on cbs this) = token this
   \<and> (callbacks_keep_slots w \<longrightarrow>
        (\<forall>k g f c. k \<in> set kinds \<and> map_of cbs k = Some (Some g) \<and> kind c = k
             \<and> Call f c \<in> set (events (fst (request w (on cbs this)
                                               act service noun dat settles)))
           \<longrightarrow> f = g))"
proof -
  have a: "\<forall>k v. k \<in> set kinds \<and> map_of cbs k = Some v \<longrightarrow> slot k (on cbs this) = v"
    by (simp add: slot_on(1))
  have b: "\<forall>k. k \<in> set kinds \<and> map_of cbs k = None \<longrightarrow> slot k (on cbs this) = slot k this"
    by (simp add: slot_on(2))
  have c: "on cbs this = on (filter (\<lambda>p. fst p \<in> set kinds) cbs) this"
    by (simp add: on_known)
  have d: "u_domain (on cbs this) = u_domain this" "token (on cbs this) = token this"
    by (simp_all add: on_def on_keeps)
  have e: "f = g"
    if pure: "callbacks_keep_slots w"
      and *: "k \<in> set kinds \<and> map_of cbs k = Some (Some g) \<and> kind c = k
               \<and> Call f c \<in> set (events (fst (request w (on cbs this)
                                                 act service noun dat settles)))"
    for k g f c
  proof -
    from * request_from_slot [OF pure, of "on cbs this" act service noun dat settles]
    have "slot k (on cbs this) = Some f"
      by (auto simp add: list_all_iff)
    moreover from * have "slot k (on cbs this) = Some g"
      by (simp add: slot_on(1))
    ultimately show "f = g" by simp
  qed
  from a b c d e show ?thesis
    by blast
qed

theorem on_registers_witness:
  "slot ''error'' (on [(''error'', Some 7), (''verbose'', Some 9)]
                     (on [(''error'', Some 1)] body)) = Some 7
   \<and> slot ''warning'' (on [(''error'', Some 7), (''verbose'', Some 9)]
                        (on [(''error'', Some 1)] body)) = None
   \<and> callbacks_keep_slots (\<lambda>f c s. (Undefined, s))
   \<and> Call 7 (OnError ''GET https://localhost/svc/noun returned invalid status: 500''
               \<lparr>action = Read, data = JNull, url = ''https://localhost/svc/noun'',
                res = None\<rparr>)
       \<in> set (events (fst (request (\<lambda>f c s. (Undefined, s))
                              (on [(''error'', Some 7), (''verbose'', Some 9)]
                                 (on [(''error'', Some 1)] body))
                              Read ''svc'' ''noun'' JNull
                              (Response 500 None (Inl ''SyntaxError'')))))
   \<and> Call 1 (OnError ''GET https://localhost/svc/noun returned invalid status: 500''
               \<lparr>action = Read, data = JNull, url = ''https://localhost/svc/noun'',
                res = None\<rparr>)
       \<notin> set (events (fst (request (\<lambda>f c s. (Undefined, s))
                              (on [(''error'', Some 7), (''verbose'', Some 9)]
                                 (on [(''error'', Some 1)] body))
                              Read ''svc'' ''noun'' JNull
                              (Response 500 None (Inl ''SyntaxError'')))))"
proof -
  let ?cbs = "[(''error'', Some 7), (''verbose'', Some 9)] :: onCallbacks"
  let ?old = "on [(''error'', Some 1)] body"
  let ?w = "\<lambda>(f::callback) (c::call) (s::Body). (Undefined, s)"
  let ?c = "OnError ''GET https://localhost/svc/noun returned invalid status: 500''
               \<lparr>action = Read, data = JNull, url = ''https://localhost/svc/noun'',
                res = None\<rparr>"
  note inst = on_registers [of ?cbs ?old ?w Read "''svc''" "''noun''" JNull
      "Response 500 None (Inl ''SyntaxError'')"]
  have pure: "callbacks_keep_slots ?w"
    by (simp add: callbacks_keep_slots_def same_slots_def)
  have known: "''error'' \<in> set kinds" "''warning'' \<in> set kinds"
    by (simp_all add: kinds_def)
  have called: "Call 7 ?c
       \<in> set (events (fst (request ?w (on ?cbs ?old) Read ''svc'' ''noun'' JNull
                              (Response 500 None (Inl ''SyntaxError'')))))"
    by code_simp
  have m: "map_of ?cbs ''error'' = Some (Some 7)" "map_of ?cbs ''warning'' = None"
      "kind ?c = ''error''"
    by simp_all
  from inst have A: "\<forall>k v. k \<in> set kinds \<and> map_of ?cbs k = Some v
                        \<longrightarrow> slot k (on ?cbs ?old) = v"
    by (rule conjunct1)
  from inst have B: "\<forall>k. k \<in> set kinds \<and> map_of ?cbs k = None
                        \<longrightarrow> slot k (on ?cbs ?old) = slot k ?old"
    by (elim conjE)
  from inst pure have E: "\<forall>k g f c. k \<in> set kinds \<and> map_of ?cbs k = Some (Some g)
             \<and> kind c = k
             \<and> Call f c \<in> set (events (fst (request ?w (on ?cbs ?old) Read ''svc'' ''noun''
                                    JNull (Response 500 None (Inl ''SyntaxError'')))))
           \<longrightarrow> f = g"
    by (elim conjE impE)
  have "slot ''error'' (on ?cbs ?old) = Some 7"
    using A known(1) m(1) by blast
  moreover have "slot ''warning'' ?old = None"
    by (simp add: on_def on_event_def body_def slot_def get_callback_def)
  then have "slot ''warning'' (on ?cbs ?old) = None"
    using B known(2) m(2) by metis
  moreover have "Call 1 ?c
       \<notin> set (events (fst (request ?w (on ?cbs ?old) Read ''svc'' ''noun'' JNull
                              (Response 500 None (Inl ''SyntaxError'')))))"
  proof
    assume "Call 1 ?c
       \<in> set (events (fst (request ?w (on ?cbs ?old) Read ''svc'' ''noun'' JNull
                              (Response 500 None (Inl ''SyntaxError'')))))"
    with E known(1) m(1,3) have "(1::nat) = 7"
      by blast
    then show False by simp
  qed
  ultimately show ?thesis
    using pure called by blast
qed

text \<open>
  Claim C7. The six single registrations throw on a value that is not a function.
  \<^verbatim>\<open>on\<close> does not: \<^verbatim>\<open>on({error: undefined})\<close>, whose argument is of type
  \<^verbatim>\<open>onCallbacks\<close>, is accepted and overwrites the slot, where
  \<^verbatim>\<open>onError(undefined)\<close> throws.
\<close>

theorem on_accepts_non_function:
  "on [(''error'', None)] (body\<lparr>error := Some 1\<rparr>) = body
   \<and> onError None (body\<lparr>error := Some 1\<rparr>)
       = Inl (Error ''onError() called with an invalid callback'')"
  by (simp add: on_def on_event_def get_callback_def onError_def body_def)

end
